theory Spec2Isabelle
  imports Complex_Main "HOL-Library.Sublist"
begin

section \<open>The PDF question-answering script (main.py)\<close>

text \<open>
  main.py is a Streamlit script: the framework runs it from top to bottom on every user
  interaction. What survives from one run to the next is \<open>st.session_state\<close> and the
  outside world (the local file system and the hosted vector collection); every local
  variable of the script is created anew by each run. An exception raised anywhere
  stops the run; assignments to the session state made before it are kept.

  The third-party calls (PDF loader, text splitter, uuid4, the constructors of the
  embedding client, the vector store and the chat model, the store's writes and searches,
  the chat model's invocations) are parameters of the model, collected in the record
  \<open>env\<close>. Each call that can raise returns \<open>error + 'a\<close>, and every call made is
  appended to a trace. The prompt templates and the chains built from them (lines 93 to
  125 and 138 to 144) are assembled from constants and are taken not to raise. The calls
  that only draw on the page (spinner, success and info messages, the transcript loop of
  lines 150 to 152) change neither the session state nor the world and are left out.
\<close>

subsection \<open>Data\<close>

type_synonym bytes = "nat list"

datatype error = PermissionError | FileNotFoundError | AttributeError | ServiceError string

text \<open>\<open>Document(page_content=t)\<close>: the text and nothing else.\<close>

record document =
  page_content :: string

datatype message = HumanMessage string | AIMessage string

text \<open>\<open>ChatMistralAI(model=..., temperature=0.7, max_retries=2)\<close>.\<close>

record chat_model =
  model :: string
  temperature :: rat
  max_retries :: nat

text \<open>\<open>vector_store.as_retriever(search_type=..., search_kwargs={...})\<close>; the keyword
  dictionary is an association list.\<close>

record retriever =
  search_type :: string
  search_kwargs :: "(string \<times> int) list"

text \<open>The two prompt templates of the script, told apart by their system instruction;
  the answering prompt carries the retrieved context filled into \<open>{context}\<close>.\<close>

datatype system_prompt = ContextualizeQ | QA "document list"

text \<open>The calls that leave the script, in the order they are made.\<close>

datatype event =
    FileWrite string bytes
  | PdfLoad string
  | EmbeddingsInit string
  | VectorStoreInit string
  | ChatModelInit chat_model
  | AddDocuments "document list" "string list"
  | ChainInvoke string "message list" string
  | LlmCall chat_model system_prompt "message list" string
  | Retrieve retriever string

text \<open>The behaviour of everything outside main.py.
  \<open>writable\<close>: whether \<open>open(path, "wb")\<close> succeeds;
  \<open>pdf_loader\<close>: \<open>PyPDFLoader(path).load()\<close> on the file's bytes, giving the text of each page;
  \<open>split_text\<close>: \<open>RecursiveCharacterTextSplitter(chunk_size, chunk_overlap).split_text\<close>;
  \<open>embeddings_init\<close>: whether \<open>MistralAIEmbeddings(model=...)\<close> raises;
  \<open>vector_store_init\<close>: whether \<open>AstraDBVectorStore(collection_name=..., ...)\<close> raises, with
    the endpoint and the token the process environment holds;
  \<open>chat_model_init\<close>: whether \<open>ChatMistralAI(...)\<close> raises;
  \<open>uuid4\<close>: the n-th identifier drawn by \<open>str(uuid4())\<close>;
  \<open>store_fault\<close>: whether embedding and writing a batch fails;
  \<open>partial_write\<close>: what a failed batch leaves in the collection;
  \<open>mmr_search\<close>: the retriever's search on the collection;
  \<open>llm\<close>: one invocation of the chat model on a prompt, a history and a human input.\<close>

record env =
  writable :: "string \<Rightarrow> bool"
  pdf_loader :: "bytes \<Rightarrow> error + string list"
  split_text :: "nat \<Rightarrow> nat \<Rightarrow> string \<Rightarrow> string list"
  embeddings_init :: "string \<Rightarrow> error option"
  vector_store_init :: "string \<Rightarrow> error option"
  chat_model_init :: "chat_model \<Rightarrow> error option"
  uuid4 :: "nat \<Rightarrow> string"
  store_fault :: "document list \<Rightarrow> string list \<Rightarrow> error option"
  partial_write :: "document list \<Rightarrow> string list \<Rightarrow> (string \<times> string) list \<Rightarrow> (string \<times> string) list"
  mmr_search :: "retriever \<Rightarrow> string \<Rightarrow> (string \<times> string) list \<Rightarrow> error + document list"
  llm :: "chat_model \<Rightarrow> system_prompt \<Rightarrow> message list \<Rightarrow> string \<Rightarrow> error + string"

text \<open>The world outside the session: local files, the collection \<open>pdf_store\<close> as its
  (id, text) entries, the number of identifiers drawn from uuid4 so far, and the trace.\<close>

record world =
  files :: "string \<rightharpoonup> bytes"
  pdf_store :: "(string \<times> string) list"
  uuids_drawn :: nat
  trace :: "event list"

text \<open>\<open>st.session_state\<close>: a key that was never assigned is \<open>None\<close>.\<close>

record session_state =
  vector_ready :: "bool option"
  chat_history :: "(string \<times> string) list option"

text \<open>The widgets' values in one run of the script.\<close>

record ui =
  pdf_file :: "bytes option"
  upload_clicked :: bool
  user_question :: string
  ask_clicked :: bool

subsection \<open>Primitive calls\<close>

definition log_event :: "event \<Rightarrow> world \<Rightarrow> world" where
  "log_event ev w = w\<lparr>trace := trace w @ [ev]\<rparr>"

text \<open>\<open>with open(path, "wb") as f: f.write(data)\<close>.\<close>

definition open_wb_write :: "env \<Rightarrow> string \<Rightarrow> bytes \<Rightarrow> world \<Rightarrow> (error + unit) \<times> world" where
  "open_wb_write E path data w =
     (let w1 = log_event (FileWrite path data) w in
      if writable E path then (Inr (), w1\<lparr>files := (files w1)(path \<mapsto> data)\<rparr>)
      else (Inl PermissionError, w1))"

text \<open>\<open>PyPDFLoader(path).load()\<close>.\<close>

definition loader_load :: "env \<Rightarrow> string \<Rightarrow> world \<Rightarrow> (error + string list) \<times> world" where
  "loader_load E path w =
     (let w1 = log_event (PdfLoad path) w in
      case files w1 path of
        None \<Rightarrow> (Inl FileNotFoundError, w1)
      | Some b \<Rightarrow> (pdf_loader E b, w1))"

text \<open>A constructor call: it is logged, and raises when the environment says so.\<close>

definition construct :: "event \<Rightarrow> error option \<Rightarrow> world \<Rightarrow> (error + unit) \<times> world" where
  "construct ev fault w =
     (case fault of
        Some e \<Rightarrow> (Inl e, log_event ev w)
      | None \<Rightarrow> (Inr (), log_event ev w))"

text \<open>\<open>[str(uuid4()) for _ in range(n)]\<close>.\<close>

definition uuid4s :: "env \<Rightarrow> nat \<Rightarrow> world \<Rightarrow> string list \<times> world" where
  "uuid4s E n w =
     (map (\<lambda>i. uuid4 E (uuids_drawn w + i)) [0..<n], w\<lparr>uuids_drawn := uuids_drawn w + n\<rparr>)"

text \<open>The collection holds one entry per identifier: writing under an identifier that is
  already there replaces that entry's text, writing under a new one adds an entry.\<close>

fun upsert :: "string \<Rightarrow> string \<Rightarrow> (string \<times> string) list \<Rightarrow> (string \<times> string) list" where
  "upsert i t [] = [(i, t)]"
| "upsert i t ((j, u) # rest) = (if j = i then (i, t) # rest else (j, u) # upsert i t rest)"

fun upsert_all :: "(string \<times> string) list \<Rightarrow> (string \<times> string) list \<Rightarrow> (string \<times> string) list" where
  "upsert_all [] store = store"
| "upsert_all ((i, t) # batch) store = upsert_all batch (upsert i t store)"

text \<open>\<open>vector_store.add_documents(documents=docs, ids=uuids)\<close>: the batch is embedded and
  written under the given identifiers; after a failure the collection holds what the
  environment says, which may be a part of the batch.\<close>

definition add_documents ::
  "env \<Rightarrow> document list \<Rightarrow> string list \<Rightarrow> world \<Rightarrow> (error + string list) \<times> world" where
  "add_documents E docs ids w =
     (let w1 = log_event (AddDocuments docs ids) w in
      case store_fault E docs ids of
        Some e \<Rightarrow> (Inl e, w1\<lparr>pdf_store := partial_write E docs ids (pdf_store w1)\<rparr>)
      | None \<Rightarrow>
          (Inr ids, w1\<lparr>pdf_store := upsert_all (zip ids (map page_content docs)) (pdf_store w1)\<rparr>))"

definition llm_invoke ::
  "env \<Rightarrow> chat_model \<Rightarrow> system_prompt \<Rightarrow> message list \<Rightarrow> string \<Rightarrow> world \<Rightarrow> (error + string) \<times> world" where
  "llm_invoke E m p hist inp w = (llm E m p hist inp, log_event (LlmCall m p hist inp) w)"

definition retrieve :: "env \<Rightarrow> retriever \<Rightarrow> string \<Rightarrow> world \<Rightarrow> (error + document list) \<times> world" where
  "retrieve E r q w = (mmr_search E r q (pdf_store w), log_event (Retrieve r q) w)"

subsection \<open>The upload handler (lines 42 to 67)\<close>

definition upload_handler ::
  "env \<Rightarrow> bytes \<Rightarrow> session_state \<Rightarrow> world \<Rightarrow> (error + unit) \<times> session_state \<times> world" where
  "upload_handler E data ss w =
     (case open_wb_write E ''temp.pdf'' data w of
        (Inl e, w1) \<Rightarrow> (Inl e, ss, w1)
      | (Inr _, w1) \<Rightarrow>
     (case loader_load E ''temp.pdf'' w1 of
        (Inl e, w2) \<Rightarrow> (Inl e, ss, w2)
      | (Inr pages, w2) \<Rightarrow>
     (let texts = concat (map (split_text E 1000 200) pages);
          docs = map (\<lambda>t. \<lparr>page_content = t\<rparr>) texts
      in
     (case construct (EmbeddingsInit ''mistral-embed'') (embeddings_init E ''mistral-embed'') w2 of
        (Inl e, w3) \<Rightarrow> (Inl e, ss, w3)
      | (Inr _, w3) \<Rightarrow>
     (case construct (VectorStoreInit ''pdf_store'') (vector_store_init E ''pdf_store'') w3 of
        (Inl e, w4) \<Rightarrow> (Inl e, ss, w4)
      | (Inr _, w4) \<Rightarrow>
     (let (uuids, w5) = uuid4s E (length docs) w4 in
     (case add_documents E docs uuids w5 of
        (Inl e, w6) \<Rightarrow> (Inl e, ss, w6)
      | (Inr _, w6) \<Rightarrow> (Inr (), ss\<lparr>vector_ready := Some True\<rparr>, w6))))))))"

subsection \<open>The question handler (lines 76 to 148)\<close>

text \<open>\<open>get_session_history\<close> on the dictionary \<open>store\<close>.\<close>

definition get_session_history ::
  "string \<Rightarrow> (string \<rightharpoonup> message list) \<Rightarrow> (string \<rightharpoonup> message list) \<times> message list" where
  "get_session_history session_id store =
     (case store session_id of
        None \<Rightarrow> (store(session_id \<mapsto> []), [])
      | Some h \<Rightarrow> (store, h))"

text \<open>\<open>create_history_aware_retriever(model, retriever, contextualize_q_prompt)\<close>: with no
  history the input goes to the retriever as it is; otherwise the model rewrites it first.\<close>

definition history_aware_retriever ::
  "env \<Rightarrow> chat_model \<Rightarrow> retriever \<Rightarrow> message list \<Rightarrow> string \<Rightarrow> world \<Rightarrow> (error + document list) \<times> world" where
  "history_aware_retriever E m r hist inp w =
     (if hist = [] then retrieve E r inp w
      else case llm_invoke E m ContextualizeQ hist inp w of
             (Inl e, w1) \<Rightarrow> (Inl e, w1)
           | (Inr q, w1) \<Rightarrow> retrieve E r q w1)"

text \<open>\<open>create_retrieval_chain(history_aware_retriever, question_answer_chain)\<close>.\<close>

definition rag_chain ::
  "env \<Rightarrow> chat_model \<Rightarrow> retriever \<Rightarrow> message list \<Rightarrow> string \<Rightarrow> world \<Rightarrow> (error + string) \<times> world" where
  "rag_chain E m r hist inp w =
     (case history_aware_retriever E m r hist inp w of
        (Inl e, w1) \<Rightarrow> (Inl e, w1)
      | (Inr docs, w1) \<Rightarrow> llm_invoke E m (QA docs) hist inp w1)"

text \<open>\<open>RunnableWithMessageHistory(rag_chain, get_session_history, ...).invoke\<close>: the history
  of the session is looked up, handed to the chain as \<open>chat_history\<close>, and extended by the
  question and the answer when the chain has returned.\<close>

definition conversational_rag_chain ::
  "env \<Rightarrow> chat_model \<Rightarrow> retriever \<Rightarrow> (string \<rightharpoonup> message list) \<Rightarrow> string \<Rightarrow> string \<Rightarrow> world
     \<Rightarrow> (error + string) \<times> (string \<rightharpoonup> message list) \<times> world" where
  "conversational_rag_chain E m r store inp session_id w =
     (let (store1, hist) = get_session_history session_id store;
          w0 = log_event (ChainInvoke session_id hist inp) w
      in case rag_chain E m r hist inp w0 of
           (Inl e, w1) \<Rightarrow> (Inl e, store1, w1)
         | (Inr ans, w1) \<Rightarrow>
             (Inr ans, store1(session_id \<mapsto> hist @ [HumanMessage inp, AIMessage ans]), w1))"

definition ask_handler ::
  "env \<Rightarrow> string \<Rightarrow> session_state \<Rightarrow> world \<Rightarrow> (error + unit) \<times> session_state \<times> world" where
  "ask_handler E user_q ss w =
     (let m = \<lparr>model = ''mistral-large-latest'', temperature = 7 / 10, max_retries = 2\<rparr> in
     (case construct (ChatModelInit m) (chat_model_init E m) w of
        (Inl e, w1) \<Rightarrow> (Inl e, ss, w1)
      | (Inr _, w1) \<Rightarrow>
     (case construct (EmbeddingsInit ''mistral-embed'') (embeddings_init E ''mistral-embed'') w1 of
        (Inl e, w2) \<Rightarrow> (Inl e, ss, w2)
      | (Inr _, w2) \<Rightarrow>
     (case construct (VectorStoreInit ''pdf_store'') (vector_store_init E ''pdf_store'') w2 of
        (Inl e, w3) \<Rightarrow> (Inl e, ss, w3)
      | (Inr _, w3) \<Rightarrow>
     (let r = \<lparr>search_type = ''mmr'', search_kwargs = [(''k'', 4)]\<rparr>;
          store = Map.empty
      in
     (case conversational_rag_chain E m r store user_q ''abc123'' w3 of
        (Inl e, _, w4) \<Rightarrow> (Inl e, ss, w4)
      | (Inr ans, _, w4) \<Rightarrow>
          (case chat_history ss of
             None \<Rightarrow> (Inl AttributeError, ss, w4)
           | Some h \<Rightarrow> (Inr (), ss\<lparr>chat_history := Some (h @ [(user_q, ans)])\<rparr>, w4))))))))"

subsection \<open>One run of the script, and a session of runs\<close>

text \<open>Lines 39 and 40: the flag is created on the first run.\<close>

definition init_flag :: "session_state \<Rightarrow> session_state" where
  "init_flag ss = (if vector_ready ss = None then ss\<lparr>vector_ready := Some False\<rparr> else ss)"

text \<open>Line 42: \<open>if st.sidebar.button("Upload & Process") and pdf_file\<close>.\<close>

definition upload_section ::
  "env \<Rightarrow> ui \<Rightarrow> session_state \<Rightarrow> world \<Rightarrow> (error + unit) \<times> session_state \<times> world" where
  "upload_section E inp ss w =
     (if upload_clicked inp
      then (case pdf_file inp of
              None \<Rightarrow> (Inr (), ss, w)
            | Some data \<Rightarrow> upload_handler E data ss w)
      else (Inr (), ss, w))"

text \<open>Lines 71 to 76 and 153: the chat section is open once \<open>vector_ready\<close> is true; it
  creates the transcript on its first run, and answers when the button was pressed on a
  non-empty question.\<close>

definition chat_section ::
  "env \<Rightarrow> ui \<Rightarrow> session_state \<Rightarrow> world \<Rightarrow> (error + unit) \<times> session_state \<times> world" where
  "chat_section E inp ss w =
     (if vector_ready ss = Some True then
        (let ss2 = (if chat_history ss = None then ss\<lparr>chat_history := Some []\<rparr> else ss) in
         if ask_clicked inp \<and> user_question inp \<noteq> []
         then ask_handler E (user_question inp) ss2 w
         else (Inr (), ss2, w))
      else (Inr (), ss, w))"

definition run_script ::
  "env \<Rightarrow> ui \<Rightarrow> session_state \<Rightarrow> world \<Rightarrow> (error + unit) \<times> session_state \<times> world" where
  "run_script E inp ss w =
     (case upload_section E inp (init_flag ss) w of
        (Inl e, ss1, w1) \<Rightarrow> (Inl e, ss1, w1)
      | (Inr _, ss1, w1) \<Rightarrow> chat_section E inp ss1 w1)"

text \<open>A session: the script is run once per interaction, each run starting from the session
  state and the world the previous one left, whether it ended in an exception or not.\<close>

fun process :: "env \<Rightarrow> ui list \<Rightarrow> session_state \<Rightarrow> world \<Rightarrow> session_state \<times> world" where
  "process E [] ss w = (ss, w)"
| "process E (i # is) ss w = (case run_script E i ss w of (_, ss', w') \<Rightarrow> process E is ss' w')"

text \<open>The calls made between two worlds.\<close>

definition new_events :: "world \<Rightarrow> world \<Rightarrow> event list" where
  "new_events w w' = drop (length (trace w)) (trace w')"

subsection \<open>Names used in the statements\<close>

text \<open>The chunks of an upload and the documents made of them (lines 53 and 54), the
  identifiers drawn for them (line 64), and the two configuration values of the question
  handler (lines 78 to 81 and 90).\<close>

definition chunks :: "env \<Rightarrow> string list \<Rightarrow> string list" where
  "chunks E pages = concat (map (split_text E 1000 200) pages)"

abbreviation docs_of :: "env \<Rightarrow> string list \<Rightarrow> document list" where
  "docs_of E pages \<equiv> map (\<lambda>t. \<lparr>page_content = t\<rparr>) (chunks E pages)"

definition fresh_ids :: "env \<Rightarrow> nat \<Rightarrow> nat \<Rightarrow> string list" where
  "fresh_ids E n0 n = map (\<lambda>i. uuid4 E (n0 + i)) [0..<n]"

definition the_model :: chat_model where
  "the_model = \<lparr>model = ''mistral-large-latest'', temperature = 7 / 10, max_retries = 2\<rparr>"

definition the_retriever :: retriever where
  "the_retriever = \<lparr>search_type = ''mmr'', search_kwargs = [(''k'', 4)]\<rparr>"

text \<open>The calls of an upload up to the store's construction, and those of a question up
  to the search.\<close>

definition upload_calls :: "bytes \<Rightarrow> event list" where
  "upload_calls data =
     [FileWrite ''temp.pdf'' data, PdfLoad ''temp.pdf'',
      EmbeddingsInit ''mistral-embed'', VectorStoreInit ''pdf_store'']"

definition ask_calls :: "string \<Rightarrow> event list" where
  "ask_calls q =
     [ChatModelInit the_model, EmbeddingsInit ''mistral-embed'', VectorStoreInit ''pdf_store'',
      ChainInvoke ''abc123'' [] q, Retrieve the_retriever q]"

text \<open>What holds of every call the script makes.\<close>

fun script_event :: "event \<Rightarrow> bool" where
  "script_event (FileWrite p d) = (p = ''temp.pdf'')"
| "script_event (PdfLoad p) = (p = ''temp.pdf'')"
| "script_event (EmbeddingsInit n) = (n = ''mistral-embed'')"
| "script_event (VectorStoreInit c) = (c = ''pdf_store'')"
| "script_event (ChatModelInit m) = (m = the_model)"
| "script_event (AddDocuments docs ids) = (length docs = length ids)"
| "script_event (ChainInvoke sid h q) = (sid = ''abc123'' \<and> h = [])"
| "script_event (LlmCall m p h q) = (m = the_model \<and> h = [] \<and> p \<noteq> ContextualizeQ)"
| "script_event (Retrieve r q) = (r = the_retriever)"

text \<open>The invocations of the chain among a list of calls: session identifier, history
  handed over, question.\<close>

fun invocations :: "event list \<Rightarrow> (string \<times> message list \<times> string) list" where
  "invocations [] = []"
| "invocations (ChainInvoke sid h q # evs) = (sid, h, q) # invocations evs"
| "invocations (_ # evs) = invocations evs"


text \<open>Line 71: the chat section is shown when the flag is true.\<close>

definition chat_enabled :: "session_state \<Rightarrow> bool" where
  "chat_enabled ss = (vector_ready ss = Some True)"

text \<open>The identifiers of the collection were all drawn from uuid4 before.\<close>

definition ids_drawn_before :: "env \<Rightarrow> world \<Rightarrow> bool" where
  "ids_drawn_before E w = (\<forall>i \<in> fst ` set (pdf_store w). \<exists>n < uuids_drawn w. i = uuid4 E n)"

subsection \<open>A concrete environment\<close>

text \<open>A small environment on which the theorems are instantiated: every file is
  writable, a non-empty file loads into two pages, a page is one chunk, the n-th
  identifier is n+1 letters long, no service fails, a search returns the first entries
  of the collection, and the chat model answers by echoing the question.\<close>

definition demo_env :: env where
  "demo_env =
     \<lparr>writable = (\<lambda>p. True),
      pdf_loader = (\<lambda>b. if b = [] then Inl (ServiceError ''empty file'') else Inr [''ab'', ''c'']),
      split_text = (\<lambda>n k s. [s]),
      embeddings_init = (\<lambda>n. None),
      vector_store_init = (\<lambda>c. None),
      chat_model_init = (\<lambda>m. None),
      uuid4 = (\<lambda>n. replicate (Suc n) CHR ''u''),
      store_fault = (\<lambda>d i. None),
      partial_write = (\<lambda>d i s. s),
      mmr_search = (\<lambda>r q c. if search_type r = ''mmr''
                             then Inr (map (\<lambda>(i, t). \<lparr>page_content = t\<rparr>)
                                        (take (nat (the (map_of (search_kwargs r) ''k''))) c))
                             else Inr []),
      llm = (\<lambda>m p h i. Inr (''re: '' @ i))\<rparr>"

text \<open>The same environment with a vector store whose construction raises.\<close>

definition demo_env_no_store :: env where
  "demo_env_no_store = demo_env\<lparr>vector_store_init := (\<lambda>c. Some (ServiceError ''no token''))\<rparr>"

definition demo_world :: world where
  "demo_world = \<lparr>files = Map.empty, pdf_store = [], uuids_drawn = 0, trace = []\<rparr>"

definition demo_session :: session_state where
  "demo_session = \<lparr>vector_ready = None, chat_history = None\<rparr>"

definition demo_uploaded :: world where
  "demo_uploaded =
     \<lparr>files = [''temp.pdf'' \<mapsto> [37, 80]],
      pdf_store = [(''u'', ''ab''), (''uu'', ''c'')],
      uuids_drawn = 2,
      trace = upload_calls [37, 80] @
              [AddDocuments [\<lparr>page_content = ''ab''\<rparr>, \<lparr>page_content = ''c''\<rparr>] [''u'', ''uu'']]\<rparr>"

text \<open>A session of three interactions: an upload, then two questions.\<close>

definition demo_inputs :: "ui list" where
  "demo_inputs =
     [\<lparr>pdf_file = Some [37, 80], upload_clicked = True, user_question = [], ask_clicked = False\<rparr>,
      \<lparr>pdf_file = Some [37, 80], upload_clicked = False, user_question = ''q1'', ask_clicked = True\<rparr>,
      \<lparr>pdf_file = Some [37, 80], upload_clicked = False, user_question = ''q2'', ask_clicked = True\<rparr>]"

definition demo_context :: "document list" where
  "demo_context = [\<lparr>page_content = ''ab''\<rparr>, \<lparr>page_content = ''c''\<rparr>]"

definition demo_asked :: session_state where
  "demo_asked = \<lparr>vector_ready = Some True,
                  chat_history = Some [(''q1'', ''re: q1''), (''q2'', ''re: q2'')]\<rparr>"

definition demo_final :: world where
  "demo_final =
     \<lparr>files = [''temp.pdf'' \<mapsto> [37, 80]],
      pdf_store = [(''u'', ''ab''), (''uu'', ''c'')],
      uuids_drawn = 2,
      trace = upload_calls [37, 80] @
              [AddDocuments [\<lparr>page_content = ''ab''\<rparr>, \<lparr>page_content = ''c''\<rparr>] [''u'', ''uu'']] @
              ask_calls ''q1'' @ [LlmCall the_model (QA demo_context) [] ''q1''] @
              ask_calls ''q2'' @ [LlmCall the_model (QA demo_context) [] ''q2'']\<rparr>"

text \<open>A store that already holds one turn under the session key, the session after the
  first question, the second question, and an upload of an empty file.\<close>

definition demo_store :: "string \<rightharpoonup> message list" where
  "demo_store = [''abc123'' \<mapsto> [HumanMessage ''q0'', AIMessage ''a0'']]"

definition demo_one_turn :: session_state where
  "demo_one_turn = \<lparr>vector_ready = Some True, chat_history = Some [(''q1'', ''re: q1'')]\<rparr>"

definition demo_second_question :: ui where
  "demo_second_question =
     \<lparr>pdf_file = Some [37, 80], upload_clicked = False, user_question = ''q2'', ask_clicked = True\<rparr>"

definition demo_bad_upload :: ui where
  "demo_bad_upload =
     \<lparr>pdf_file = Some [], upload_clicked = True, user_question = [], ask_clicked = False\<rparr>"

text \<open>A second upload, of other bytes.\<close>

definition demo_reupload :: ui where
  "demo_reupload =
     \<lparr>pdf_file = Some [49], upload_clicked = True, user_question = [], ask_clicked = False\<rparr>"

section \<open>Properties\<close>

subsection \<open>What each handler does, case by case\<close>

lemma length_fresh_ids: "length (fresh_ids E n0 n) = n"
  by (simp add: fresh_ids_def)

lemma upload_handler_cases:
  obtains
    (perm) "\<not> writable E ''temp.pdf''"
      "upload_handler E data ss w =
         (Inl PermissionError, ss, w\<lparr>trace := trace w @ [FileWrite ''temp.pdf'' data]\<rparr>)"
  | (load) e where "writable E ''temp.pdf''" "pdf_loader E data = Inl e"
      "upload_handler E data ss w =
         (Inl e, ss, w\<lparr>files := (files w)(''temp.pdf'' \<mapsto> data),
                        trace := trace w @ take 2 (upload_calls data)\<rparr>)"
  | (emb) pages e where "writable E ''temp.pdf''" "pdf_loader E data = Inr pages"
      "embeddings_init E ''mistral-embed'' = Some e"
      "upload_handler E data ss w =
         (Inl e, ss, w\<lparr>files := (files w)(''temp.pdf'' \<mapsto> data),
                        trace := trace w @ take 3 (upload_calls data)\<rparr>)"
  | (vs) pages e where "writable E ''temp.pdf''" "pdf_loader E data = Inr pages"
      "embeddings_init E ''mistral-embed'' = None" "vector_store_init E ''pdf_store'' = Some e"
      "upload_handler E data ss w =
         (Inl e, ss, w\<lparr>files := (files w)(''temp.pdf'' \<mapsto> data),
                        trace := trace w @ upload_calls data\<rparr>)"
  | (store) pages e where "writable E ''temp.pdf''" "pdf_loader E data = Inr pages"
      "embeddings_init E ''mistral-embed'' = None" "vector_store_init E ''pdf_store'' = None"
      "store_fault E (docs_of E pages) (fresh_ids E (uuids_drawn w) (length (chunks E pages))) = Some e"
      "upload_handler E data ss w =
         (Inl e, ss, w\<lparr>files := (files w)(''temp.pdf'' \<mapsto> data),
                        pdf_store := partial_write E (docs_of E pages)
                          (fresh_ids E (uuids_drawn w) (length (chunks E pages))) (pdf_store w),
                        uuids_drawn := uuids_drawn w + length (chunks E pages),
                        trace := trace w @ upload_calls data @
                          [AddDocuments (docs_of E pages)
                            (fresh_ids E (uuids_drawn w) (length (chunks E pages)))]\<rparr>)"
  | (ok) pages where "writable E ''temp.pdf''" "pdf_loader E data = Inr pages"
      "embeddings_init E ''mistral-embed'' = None" "vector_store_init E ''pdf_store'' = None"
      "store_fault E (docs_of E pages) (fresh_ids E (uuids_drawn w) (length (chunks E pages))) = None"
      "upload_handler E data ss w =
         (Inr (), ss\<lparr>vector_ready := Some True\<rparr>,
          w\<lparr>files := (files w)(''temp.pdf'' \<mapsto> data),
            pdf_store := upsert_all
               (zip (fresh_ids E (uuids_drawn w) (length (chunks E pages))) (chunks E pages))
               (pdf_store w),
            uuids_drawn := uuids_drawn w + length (chunks E pages),
            trace := trace w @ upload_calls data @
              [AddDocuments (docs_of E pages)
                (fresh_ids E (uuids_drawn w) (length (chunks E pages)))]\<rparr>)"
proof (cases "writable E ''temp.pdf''")
  case False
  show ?thesis
    by (rule perm) (simp_all add: False upload_handler_def open_wb_write_def log_event_def)
next
  case wr: True
  show ?thesis
  proof (cases "pdf_loader E data")
    case (Inl e)
    show ?thesis
      by (rule load [of e])
         (simp_all add: wr Inl upload_handler_def open_wb_write_def loader_load_def
            log_event_def upload_calls_def)
  next
    case ld: (Inr pages)
    show ?thesis
    proof (cases "embeddings_init E ''mistral-embed''")
      case (Some e)
      show ?thesis
        by (rule emb [of pages e])
           (simp_all add: wr ld Some upload_handler_def open_wb_write_def loader_load_def
              construct_def log_event_def upload_calls_def)
    next
      case em: None
      show ?thesis
      proof (cases "vector_store_init E ''pdf_store''")
        case (Some e)
        show ?thesis
          by (rule vs [of pages e])
             (simp_all add: wr ld em Some upload_handler_def open_wb_write_def loader_load_def
                construct_def log_event_def upload_calls_def)
      next
        case vi: None
        show ?thesis
        proof (cases "store_fault E (docs_of E pages)
                        (fresh_ids E (uuids_drawn w) (length (chunks E pages)))")
          case (Some e)
          show ?thesis
            by (rule store [of pages e])
               (use Some in \<open>simp_all add: wr ld em vi upload_handler_def open_wb_write_def
                  loader_load_def construct_def log_event_def upload_calls_def uuid4s_def
                  add_documents_def chunks_def fresh_ids_def Let_def\<close>)
        next
          case None
          show ?thesis
            by (rule ok [of pages])
               (use None in \<open>simp_all add: wr ld em vi upload_handler_def open_wb_write_def
                  loader_load_def construct_def log_event_def upload_calls_def uuid4s_def
                  add_documents_def chunks_def fresh_ids_def Let_def comp_def\<close>)
        qed
      qed
    qed
  qed
qed

lemma ask_handler_cases:
  obtains
    (model) e where "chat_model_init E the_model = Some e"
      "ask_handler E q ss w = (Inl e, ss, w\<lparr>trace := trace w @ take 1 (ask_calls q)\<rparr>)"
  | (emb) e where "chat_model_init E the_model = None"
      "embeddings_init E ''mistral-embed'' = Some e"
      "ask_handler E q ss w = (Inl e, ss, w\<lparr>trace := trace w @ take 2 (ask_calls q)\<rparr>)"
  | (vs) e where "chat_model_init E the_model = None"
      "embeddings_init E ''mistral-embed'' = None" "vector_store_init E ''pdf_store'' = Some e"
      "ask_handler E q ss w = (Inl e, ss, w\<lparr>trace := trace w @ take 3 (ask_calls q)\<rparr>)"
  | (search) e where "chat_model_init E the_model = None"
      "embeddings_init E ''mistral-embed'' = None" "vector_store_init E ''pdf_store'' = None"
      "mmr_search E the_retriever q (pdf_store w) = Inl e"
      "ask_handler E q ss w = (Inl e, ss, w\<lparr>trace := trace w @ ask_calls q\<rparr>)"
  | (llm) docs e where "chat_model_init E the_model = None"
      "embeddings_init E ''mistral-embed'' = None" "vector_store_init E ''pdf_store'' = None"
      "mmr_search E the_retriever q (pdf_store w) = Inr docs"
      "llm E the_model (QA docs) [] q = Inl e"
      "ask_handler E q ss w =
         (Inl e, ss, w\<lparr>trace := trace w @ ask_calls q @ [LlmCall the_model (QA docs) [] q]\<rparr>)"
  | (nokey) docs ans where "chat_model_init E the_model = None"
      "embeddings_init E ''mistral-embed'' = None" "vector_store_init E ''pdf_store'' = None"
      "mmr_search E the_retriever q (pdf_store w) = Inr docs"
      "llm E the_model (QA docs) [] q = Inr ans" "chat_history ss = None"
      "ask_handler E q ss w =
         (Inl AttributeError, ss,
          w\<lparr>trace := trace w @ ask_calls q @ [LlmCall the_model (QA docs) [] q]\<rparr>)"
  | (ok) docs ans h where "chat_model_init E the_model = None"
      "embeddings_init E ''mistral-embed'' = None" "vector_store_init E ''pdf_store'' = None"
      "mmr_search E the_retriever q (pdf_store w) = Inr docs"
      "llm E the_model (QA docs) [] q = Inr ans" "chat_history ss = Some h"
      "ask_handler E q ss w =
         (Inr (), ss\<lparr>chat_history := Some (h @ [(q, ans)])\<rparr>,
          w\<lparr>trace := trace w @ ask_calls q @ [LlmCall the_model (QA docs) [] q]\<rparr>)"
proof (cases "chat_model_init E the_model")
  case (Some e)
  show ?thesis
    by (rule model [of e])
       (use Some in \<open>simp_all add: Let_def ask_handler_def construct_def log_event_def ask_calls_def
          the_model_def\<close>)
next
  case cm: None
  show ?thesis
  proof (cases "embeddings_init E ''mistral-embed''")
    case (Some e)
    show ?thesis
      by (rule emb [of e])
         (use cm Some in \<open>simp_all add: Let_def ask_handler_def construct_def log_event_def
            ask_calls_def the_model_def\<close>)
  next
    case em: None
    show ?thesis
    proof (cases "vector_store_init E ''pdf_store''")
      case (Some e)
      show ?thesis
        by (rule vs [of e])
           (use cm em Some in \<open>simp_all add: Let_def ask_handler_def construct_def log_event_def
              ask_calls_def the_model_def\<close>)
    next
      case vi: None
      show ?thesis
      proof (cases "mmr_search E the_retriever q (pdf_store w)")
        case (Inl e)
        show ?thesis
          by (rule search [of e])
             (use cm em vi Inl in \<open>simp_all add: Let_def ask_handler_def construct_def log_event_def
                ask_calls_def the_model_def the_retriever_def conversational_rag_chain_def
                get_session_history_def rag_chain_def history_aware_retriever_def
                retrieve_def\<close>)
      next
        case sr: (Inr docs)
        show ?thesis
        proof (cases "llm E the_model (QA docs) [] q")
          case (Inl e)
          show ?thesis
            by (rule llm [of docs e])
               (use cm em vi sr Inl in \<open>simp_all add: Let_def ask_handler_def construct_def
                  log_event_def ask_calls_def the_model_def the_retriever_def
                  conversational_rag_chain_def get_session_history_def rag_chain_def
                  history_aware_retriever_def retrieve_def llm_invoke_def\<close>)
        next
          case an: (Inr ans)
          show ?thesis
          proof (cases "chat_history ss")
            case None
            show ?thesis
              by (rule nokey [of docs ans])
                 (use cm em vi sr an None in \<open>simp_all add: Let_def ask_handler_def construct_def
                    log_event_def ask_calls_def the_model_def the_retriever_def
                    conversational_rag_chain_def get_session_history_def rag_chain_def
                    history_aware_retriever_def retrieve_def llm_invoke_def\<close>)
          next
            case (Some h)
            show ?thesis
              by (rule ok [of docs ans h])
                 (use cm em vi sr an Some in \<open>simp_all add: Let_def ask_handler_def construct_def
                    log_event_def ask_calls_def the_model_def the_retriever_def
                    conversational_rag_chain_def get_session_history_def rag_chain_def
                    history_aware_retriever_def retrieve_def llm_invoke_def\<close>)
          qed
        qed
      qed
    qed
  qed
qed

subsection \<open>The calls of a run and of a session\<close>

lemma upload_section_cases:
  assumes "upload_section E inp ss w = (r, ss', w')"
  obtains (idle) "\<not> upload_clicked inp \<or> pdf_file inp = None" "r = Inr ()" "ss' = ss" "w' = w"
  | (run) data where "upload_clicked inp" "pdf_file inp = Some data"
      "upload_handler E data ss w = (r, ss', w')"
  using assms by (auto simp add: upload_section_def split: if_splits option.splits)

lemma chat_section_cases:
  assumes "chat_section E inp ss w = (r, ss', w')"
  obtains (closed) "vector_ready ss \<noteq> Some True" "r = Inr ()" "ss' = ss" "w' = w"
  | (idle) "vector_ready ss = Some True" "\<not> (ask_clicked inp \<and> user_question inp \<noteq> [])"
      "r = Inr ()" "w' = w"
      "ss' = (if chat_history ss = None then ss\<lparr>chat_history := Some []\<rparr> else ss)"
  | (ask) "vector_ready ss = Some True" "ask_clicked inp" "user_question inp \<noteq> []"
      "ask_handler E (user_question inp)
         (if chat_history ss = None then ss\<lparr>chat_history := Some []\<rparr> else ss) w = (r, ss', w')"
  using assms by (auto simp add: chat_section_def Let_def split: if_splits)

lemma run_script_cases:
  assumes "run_script E inp ss w = (r, ss', w')"
  obtains (upload_failed) e where "r = Inl e"
      "upload_section E inp (init_flag ss) w = (Inl e, ss', w')"
  | (upload_done) ss1 w1 where "upload_section E inp (init_flag ss) w = (Inr (), ss1, w1)"
      "chat_section E inp ss1 w1 = (r, ss', w')"
  using assms by (auto simp add: run_script_def split: prod.splits sum.splits)

lemma upload_handler_events:
  assumes "upload_handler E data ss w = (r, ss', w')"
  shows "trace w' = trace w @ new_events w w' \<and> list_all script_event (new_events w w')"
  by (cases rule: upload_handler_cases [of E data ss w])
     (use assms in \<open>auto simp add: new_events_def length_fresh_ids upload_calls_def\<close>)

lemma ask_handler_events:
  assumes "ask_handler E q ss w = (r, ss', w')"
  shows "trace w' = trace w @ new_events w w' \<and> list_all script_event (new_events w w')"
  by (cases rule: ask_handler_cases [of E q ss w])
     (use assms in \<open>auto simp add: new_events_def ask_calls_def\<close>)

lemma upload_section_events:
  assumes "upload_section E inp ss w = (r, ss', w')"
  shows "trace w' = trace w @ new_events w w' \<and> list_all script_event (new_events w w')"
  using assms
proof (cases rule: upload_section_cases)
  case idle
  then show ?thesis by (simp add: new_events_def)
next
  case (run data)
  then show ?thesis using upload_handler_events by blast
qed

lemma chat_section_events:
  assumes "chat_section E inp ss w = (r, ss', w')"
  shows "trace w' = trace w @ new_events w w' \<and> list_all script_event (new_events w w')"
  using assms
proof (cases rule: chat_section_cases)
  case closed
  then show ?thesis by (simp add: new_events_def)
next
  case idle
  then show ?thesis by (simp add: new_events_def)
next
  case ask
  then show ?thesis using ask_handler_events by blast
qed

lemma new_events_trans:
  assumes "trace w1 = trace w @ new_events w w1" "trace w2 = trace w1 @ new_events w1 w2"
  shows "new_events w w2 = new_events w w1 @ new_events w1 w2"
    and "trace w2 = trace w @ new_events w w2"
proof -
  from assms have "trace w2 = trace w @ new_events w w1 @ new_events w1 w2" by simp
  then show "new_events w w2 = new_events w w1 @ new_events w1 w2"
    by (simp add: new_events_def [of w w2])
  with assms show "trace w2 = trace w @ new_events w w2" by simp
qed

lemma run_script_events:
  assumes "run_script E inp ss w = (r, ss', w')"
  shows "trace w' = trace w @ new_events w w' \<and> list_all script_event (new_events w w')"
  using assms
proof (cases rule: run_script_cases)
  case (upload_failed e)
  then show ?thesis using upload_section_events by blast
next
  case (upload_done ss1 w1)
  from upload_section_events [OF upload_done(1)] chat_section_events [OF upload_done(2)]
  show ?thesis using new_events_trans [of w1 w w'] by simp
qed

lemma process_events:
  "process E is ss w = (ss', w') \<Longrightarrow>
   trace w' = trace w @ new_events w w' \<and> list_all script_event (new_events w w')"
proof (induction "is" arbitrary: ss w)
  case Nil
  then show ?case by (simp add: new_events_def)
next
  case (Cons i "is")
  obtain r ss1 w1 where step: "run_script E i ss w = (r, ss1, w1)"
    by (cases "run_script E i ss w") auto
  with Cons.prems have rest: "process E is ss1 w1 = (ss', w')" by simp
  from run_script_events [OF step] Cons.IH [OF rest]
  show ?case using new_events_trans [of w1 w w'] by simp
qed

subsection \<open>The concrete session\<close>

lemma demo_env_simps:
  "writable demo_env path"
  "pdf_loader demo_env [37, 80] = Inr [''ab'', ''c'']"
  "pdf_loader demo_env [] = Inl (ServiceError ''empty file'')"
  "split_text demo_env n k s = [s]"
  "embeddings_init demo_env name = None"
  "vector_store_init demo_env c = None"
  "chat_model_init demo_env cm = None"
  "uuid4 demo_env i = replicate (Suc i) CHR ''u''"
  "store_fault demo_env d ids = None"
  "mmr_search demo_env the_retriever q coll =
     Inr (map (\<lambda>(i, t). \<lparr>page_content = t\<rparr>) (take 4 coll))"
  "llm demo_env m sp h inp = Inr (''re: '' @ inp)"
  by (simp_all add: demo_env_def the_retriever_def)

lemma demo_upload:
  "upload_handler demo_env [37, 80] ss w =
     (Inr (), ss\<lparr>vector_ready := Some True\<rparr>,
      w\<lparr>files := (files w)(''temp.pdf'' \<mapsto> [37, 80]),
        pdf_store := upsert_all (zip (fresh_ids demo_env (uuids_drawn w) 2) [''ab'', ''c''])
                       (pdf_store w),
        uuids_drawn := uuids_drawn w + 2,
        trace := trace w @ upload_calls [37, 80] @
                 [AddDocuments demo_context (fresh_ids demo_env (uuids_drawn w) 2)]\<rparr>)"
  by (cases rule: upload_handler_cases [of demo_env "[37, 80]" ss w])
     (simp_all add: demo_env_simps chunks_def demo_context_def numeral_2_eq_2)

lemma demo_upload_first:
  "upload_handler demo_env [37, 80] \<lparr>vector_ready = Some False, chat_history = None\<rparr> demo_world =
     (Inr (), \<lparr>vector_ready = Some True, chat_history = None\<rparr>, demo_uploaded)"
  by (subst demo_upload)
     (simp add: demo_world_def demo_uploaded_def fresh_ids_def demo_env_simps
        demo_context_def upt_rec)

lemma demo_ask:
  "chat_history ss = Some h \<Longrightarrow>
   ask_handler demo_env q ss w =
     (Inr (), ss\<lparr>chat_history := Some (h @ [(q, ''re: '' @ q)])\<rparr>,
      w\<lparr>trace := trace w @ ask_calls q @
           [LlmCall the_model
              (QA (map (\<lambda>(i, t). \<lparr>page_content = t\<rparr>) (take 4 (pdf_store w)))) [] q]\<rparr>)"
  by (cases rule: ask_handler_cases [of demo_env q ss w])
     (simp_all add: demo_env_simps)

lemma demo_process:
  "process demo_env demo_inputs demo_session demo_world = (demo_asked, demo_final)"
  by (simp add: demo_inputs_def run_script_def init_flag_def upload_section_def
      chat_section_def demo_session_def demo_upload_first demo_uploaded_def demo_ask
      demo_asked_def demo_final_def demo_context_def)

lemma demo_new_events: "new_events demo_world demo_final = trace demo_final"
  by (simp add: new_events_def demo_world_def)

lemma demo_invocations:
  "invocations (new_events w (snd (process demo_env demo_inputs demo_session w))) =
     [(''abc123'', [], ''q1''), (''abc123'', [], ''q2'')]"
  by (simp add: demo_inputs_def run_script_def init_flag_def upload_section_def
      chat_section_def demo_session_def demo_upload demo_ask new_events_def
      upload_calls_def ask_calls_def)

subsection \<open>The history handed to the chain\<close>

text \<open>
  Claim C2. The claim says that a question asked after a prior turn sees that turn in its
  \<open>chat_history\<close> input. The dictionary \<open>store\<close> is created empty inside the question
  handler, so each run looks the session up in an empty dictionary: in every session,
  every invocation of the chain receives the empty history.
\<close>

theorem chain_history_always_empty:
  assumes "process E is ss w = (ss', w')"
  shows "\<forall>sid h q. ChainInvoke sid h q \<in> set (new_events w w') \<longrightarrow> h = []"
proof (intro allI impI)
  fix sid h q
  assume "ChainInvoke sid h q \<in> set (new_events w w')"
  moreover from process_events [OF assms] have "list_all script_event (new_events w w')" ..
  ultimately have "script_event (ChainInvoke sid h q)" by (auto simp add: list_all_iff)
  then show "h = []" by simp
qed

theorem chain_history_always_empty_witness:
  "process demo_env demo_inputs demo_session demo_world = (demo_asked, demo_final)
   \<and> chat_history demo_asked = Some [(''q1'', ''re: q1''), (''q2'', ''re: q2'')]
   \<and> ChainInvoke ''abc123'' [] ''q2'' \<in> set (new_events demo_world demo_final)
   \<and> ChainInvoke ''abc123'' [HumanMessage ''q1'', AIMessage ''re: q1''] ''q2''
        \<notin> set (new_events demo_world demo_final)"
proof -
  have "chat_history demo_asked = Some [(''q1'', ''re: q1''), (''q2'', ''re: q2'')]"
    by (simp add: demo_asked_def)
  moreover have "ChainInvoke ''abc123'' [] ''q2'' \<in> set (new_events demo_world demo_final)"
    unfolding demo_new_events by (simp add: demo_final_def ask_calls_def)
  moreover have "ChainInvoke ''abc123'' [HumanMessage ''q1'', AIMessage ''re: q1''] ''q2''
        \<notin> set (new_events demo_world demo_final)"
    using chain_history_always_empty [OF demo_process] by blast
  ultimately show ?thesis using demo_process by simp
qed

subsection \<open>The session identifier\<close>

text \<open>
  Claim C6, as stated, fails. It says that because of the constant session identifier the
  chat history is threaded under one key and no two sessions can be told apart. In the
  concrete session the two questions are both asked under \<open>abc123\<close>, the first turn is in
  the transcript, and yet the second invocation is handed the empty history; a second
  session, started with a new session state on the world the first one left, is handed
  the empty history as well, so it sees nothing of the first.
\<close>

theorem constant_key_threads_no_history:
  "invocations (new_events demo_world (snd (process demo_env demo_inputs demo_session demo_world)))
     = [(''abc123'', [], ''q1''), (''abc123'', [], ''q2'')]
   \<and> chat_history (fst (process demo_env demo_inputs demo_session demo_world))
     = Some [(''q1'', ''re: q1''), (''q2'', ''re: q2'')]
   \<and> invocations (new_events demo_final (snd (process demo_env demo_inputs demo_session demo_final)))
     = [(''abc123'', [], ''q1''), (''abc123'', [], ''q2'')]"
  by (simp add: demo_invocations) (simp add: demo_process demo_asked_def)

text \<open>
  Claim C6, amended. In every session, whatever the inputs, each invocation of the
  conversational chain is made under the session identifier \<open>abc123\<close>, the one string
  written in the call.
\<close>

theorem session_id_constant:
  assumes "process E is ss w = (ss', w')"
  shows "\<forall>sid h q. ChainInvoke sid h q \<in> set (new_events w w') \<longrightarrow> sid = ''abc123''"
proof (intro allI impI)
  fix sid h q
  assume "ChainInvoke sid h q \<in> set (new_events w w')"
  moreover from process_events [OF assms] have "list_all script_event (new_events w w')" ..
  ultimately have "script_event (ChainInvoke sid h q)" by (auto simp add: list_all_iff)
  then show "sid = ''abc123''" by simp
qed

theorem session_id_constant_witness:
  "process demo_env demo_inputs demo_session demo_world = (demo_asked, demo_final)
   \<and> ChainInvoke ''abc123'' [] ''q1'' \<in> set (new_events demo_world demo_final)
   \<and> ChainInvoke ''abc123'' [] ''q2'' \<in> set (new_events demo_world demo_final)"
proof -
  have "ChainInvoke ''abc123'' [] ''q1'' \<in> set (new_events demo_world demo_final)"
    and "ChainInvoke ''abc123'' [] ''q2'' \<in> set (new_events demo_world demo_final)"
    unfolding demo_new_events by (simp_all add: demo_final_def ask_calls_def)
  with session_id_constant [OF demo_process] demo_process show ?thesis by simp
qed

subsection \<open>Writing under new identifiers\<close>

lemma upsert_new: "i \<notin> fst ` set store \<Longrightarrow> upsert i t store = store @ [(i, t)]"
  by (induction store) auto

lemma upsert_all_new:
  "distinct (map fst batch) \<Longrightarrow> fst ` set batch \<inter> fst ` set store = {} \<Longrightarrow>
   upsert_all batch store = store @ batch"
proof (induction batch arbitrary: store)
  case Nil
  then show ?case by simp
next
  case (Cons p batch)
  obtain i t where p: "p = (i, t)" by (cases p)
  from Cons.prems p have new: "i \<notin> fst ` set store" by auto
  from Cons.prems p have "distinct (map fst batch)"
    and "fst ` set batch \<inter> fst ` set (store @ [(i, t)]) = {}" by auto
  from Cons.IH [OF this] show ?case by (simp add: p upsert_new [OF new])
qed

lemma fresh_ids_mem:
  "i \<in> set (fresh_ids E n0 n) \<Longrightarrow> \<exists>k. n0 \<le> k \<and> k < n0 + n \<and> i = uuid4 E k"
proof -
  assume "i \<in> set (fresh_ids E n0 n)"
  then obtain x where x: "x < n" "i = uuid4 E (n0 + x)" by (auto simp add: fresh_ids_def)
  then have "n0 \<le> n0 + x \<and> n0 + x < n0 + n \<and> i = uuid4 E (n0 + x)" by simp
  then show ?thesis by blast
qed

lemma distinct_fresh_ids: "inj (uuid4 E) \<Longrightarrow> distinct (fresh_ids E n0 n)"
proof -
  assume "inj (uuid4 E)"
  then have "n0 + x = n0 + y" if "uuid4 E (n0 + x) = uuid4 E (n0 + y)" for x y
    using that by (rule injD)
  then have "inj_on (\<lambda>i. uuid4 E (n0 + i)) (set [0..<n])"
    by (intro inj_onI) simp
  then show ?thesis by (simp add: fresh_ids_def distinct_map)
qed

lemma fresh_ids_add: "fresh_ids E n0 (a + b) = fresh_ids E n0 a @ fresh_ids E (n0 + a) b"
proof -
  have shift: "[a..<b + a] = map (\<lambda>i. i + a) [0..<b]"
    by (simp only: map_add_upt)
  have "[0..<b + a] = [0..<a] @ [a..<b + a]"
    using upt_add_eq_append [of 0 a b] by (simp only: add.commute [of a b] add_0)
  with shift have split: "[0..<b + a] = [0..<a] @ map (\<lambda>i. i + a) [0..<b]"
    by (simp only:)
  have eq: "n0 + (i + a) = n0 + a + i" for i by arith
  have "fresh_ids E n0 (b + a) = fresh_ids E n0 a @ fresh_ids E (n0 + a) b"
    unfolding fresh_ids_def split by (simp only: map_append map_map comp_def eq)
  then show ?thesis by (simp only: add.commute [of a b])
qed

lemma fresh_ids_new:
  assumes "inj (uuid4 E)" and "ids_drawn_before E w"
  shows "set (fresh_ids E (uuids_drawn w) n) \<inter> fst ` set (pdf_store w) = {}"
proof (rule ccontr)
  assume "set (fresh_ids E (uuids_drawn w) n) \<inter> fst ` set (pdf_store w) \<noteq> {}"
  then obtain i where i: "i \<in> set (fresh_ids E (uuids_drawn w) n)" "i \<in> fst ` set (pdf_store w)"
    by blast
  from fresh_ids_mem [OF i(1)] obtain k where k: "uuids_drawn w \<le> k" "i = uuid4 E k"
    by blast
  from i(2) assms(2) obtain j where j: "j < uuids_drawn w" "i = uuid4 E j"
    by (auto simp add: ids_drawn_before_def)
  from k j assms(1) have "k = j" by (auto dest: injD)
  with k j show False by simp
qed

lemma zip_fresh_keys: "length ts = n \<Longrightarrow> map fst (zip (fresh_ids E n0 n) ts) = fresh_ids E n0 n"
  by (simp add: length_fresh_ids)

lemma upload_success:
  assumes run: "upload_handler E data ss w = (Inr u, ss', w')"
    and ld: "pdf_loader E data = Inr pages"
  shows "pdf_store w' =
           upsert_all (zip (fresh_ids E (uuids_drawn w) (length (chunks E pages))) (chunks E pages))
             (pdf_store w)"
    and "uuids_drawn w' = uuids_drawn w + length (chunks E pages)"
  by (cases rule: upload_handler_cases [of E data ss w]; use run ld in auto)+

lemma upload_success_new:
  assumes run: "upload_handler E data ss w = (Inr u, ss', w')"
    and ld: "pdf_loader E data = Inr pages"
    and inj: "inj (uuid4 E)" and before: "ids_drawn_before E w"
  shows "pdf_store w' =
           pdf_store w @ zip (fresh_ids E (uuids_drawn w) (length (chunks E pages))) (chunks E pages)"
    and "ids_drawn_before E w'"
proof -
  let ?M = "length (chunks E pages)"
  let ?ids = "fresh_ids E (uuids_drawn w) ?M"
  have keys: "map fst (zip ?ids (chunks E pages)) = ?ids" by (rule zip_fresh_keys) simp
  then have keyset: "fst ` set (zip ?ids (chunks E pages)) = set ?ids" by (metis list.set_map)
  from distinct_fresh_ids [OF inj] keys have "distinct (map fst (zip ?ids (chunks E pages)))"
    by simp
  moreover from fresh_ids_new [OF inj before] keyset
  have "fst ` set (zip ?ids (chunks E pages)) \<inter> fst ` set (pdf_store w) = {}" by simp
  ultimately have "upsert_all (zip ?ids (chunks E pages)) (pdf_store w) =
                   pdf_store w @ zip ?ids (chunks E pages)" by (rule upsert_all_new)
  with upload_success(1) [OF run ld]
  show store: "pdf_store w' = pdf_store w @ zip ?ids (chunks E pages)" by simp
  show "ids_drawn_before E w'"
    unfolding ids_drawn_before_def
  proof
    fix i assume "i \<in> fst ` set (pdf_store w')"
    with store keyset consider "i \<in> fst ` set (pdf_store w)" | "i \<in> set ?ids" by auto
    then show "\<exists>n < uuids_drawn w'. i = uuid4 E n"
    proof cases
      case 1
      with before obtain n where "n < uuids_drawn w" "i = uuid4 E n"
        by (auto simp add: ids_drawn_before_def)
      with upload_success(2) [OF run ld] have "n < uuids_drawn w' \<and> i = uuid4 E n" by simp
      then show ?thesis by blast
    next
      case 2
      from fresh_ids_mem [OF 2] obtain k where "k < uuids_drawn w + ?M" "i = uuid4 E k" by blast
      with upload_success(2) [OF run ld] have "k < uuids_drawn w' \<and> i = uuid4 E k" by simp
      then show ?thesis by blast
    qed
  qed
qed

subsection \<open>Identifiers and documents of one upload\<close>

lemma demo_env_no_store_simps:
  "writable demo_env_no_store path"
  "pdf_loader demo_env_no_store [37, 80] = Inr [''ab'', ''c'']"
  "split_text demo_env_no_store n k s = [s]"
  "embeddings_init demo_env_no_store name = None"
  "vector_store_init demo_env_no_store c = Some (ServiceError ''no token'')"
  by (simp_all add: demo_env_no_store_def demo_env_def)




lemma demo_uuid4_inj: "inj (uuid4 demo_env)"
proof (rule injI)
  fix x y assume "uuid4 demo_env x = uuid4 demo_env y"
  then have "length (replicate (Suc x) CHR ''u'') = length (replicate (Suc y) CHR ''u'')"
    by (simp only: demo_env_simps)
  then show "x = y" by simp
qed

lemma demo_world_before: "ids_drawn_before demo_env demo_world"
  by (simp add: ids_drawn_before_def demo_world_def)


subsection \<open>Uploading the same file twice\<close>

text \<open>
  Claim C4. Two uploads of the same file that both return, its pages splitting into M
  chunks, with a uuid4 that never repeats an identifier and a collection whose
  identifiers were all drawn before: the second upload looks nothing up, draws M
  identifiers that are distinct from one another, from those of the first upload and
  from every identifier in the collection, and writes the same M texts again under
  them. The collection ends with 2 * M more entries than it started with, the chunks
  twice over, and the second upload has changed it whenever there is a chunk at all.
\<close>

theorem reupload_duplicates:
  assumes inj: "inj (uuid4 E)" and before: "ids_drawn_before E w"
    and first: "upload_handler E data ss w = (Inr (), ss1, w1)"
    and second: "upload_handler E data ss1 w1 = (Inr (), ss2, w2)"
    and ld: "pdf_loader E data = Inr pages" and M: "length (chunks E pages) = M"
  shows "pdf_store w1 = pdf_store w @ zip (fresh_ids E (uuids_drawn w) M) (chunks E pages)
         \<and> pdf_store w2 =
             pdf_store w1 @ zip (fresh_ids E (uuids_drawn w + M) M) (chunks E pages)
         \<and> length (pdf_store w2) = length (pdf_store w) + 2 * M
         \<and> distinct (fresh_ids E (uuids_drawn w) M @ fresh_ids E (uuids_drawn w + M) M)
         \<and> set (fresh_ids E (uuids_drawn w + M) M) \<inter> fst ` set (pdf_store w1) = {}
         \<and> map snd (drop (length (pdf_store w)) (pdf_store w2)) = chunks E pages @ chunks E pages
         \<and> (0 < M \<longrightarrow> pdf_store w2 \<noteq> pdf_store w1)"
proof -
  let ?ids1 = "fresh_ids E (uuids_drawn w) M" and ?ids2 = "fresh_ids E (uuids_drawn w + M) M"
  from upload_success_new [OF first ld inj before] M
  have s1: "pdf_store w1 = pdf_store w @ zip ?ids1 (chunks E pages)"
    and b1: "ids_drawn_before E w1" by simp_all
  from upload_success(2) [OF first ld] M have d1: "uuids_drawn w1 = uuids_drawn w + M" by simp
  from upload_success_new(1) [OF second ld inj b1] M d1
  have s2: "pdf_store w2 = pdf_store w1 @ zip ?ids2 (chunks E pages)" by simp
  from distinct_fresh_ids [OF inj, of "uuids_drawn w" "M + M"]
  have dist: "distinct (?ids1 @ ?ids2)" by (simp only: fresh_ids_add)
  from fresh_ids_new [OF inj b1, of M] d1
  have new: "set ?ids2 \<inter> fst ` set (pdf_store w1) = {}" by simp
  from s1 s2 M have len: "length (pdf_store w2) = length (pdf_store w) + 2 * M"
    by (simp add: length_fresh_ids)
  from M have snd1: "map snd (zip ?ids1 (chunks E pages)) = chunks E pages"
    and snd2: "map snd (zip ?ids2 (chunks E pages)) = chunks E pages"
    by (simp_all add: length_fresh_ids)
  from s1 s2 snd1 snd2
  have twice: "map snd (drop (length (pdf_store w)) (pdf_store w2)) = chunks E pages @ chunks E pages"
    by simp
  from s2 M have "0 < M \<longrightarrow> length (pdf_store w2) \<noteq> length (pdf_store w1)"
    by (simp add: length_fresh_ids)
  then have "0 < M \<longrightarrow> pdf_store w2 \<noteq> pdf_store w1" by auto
  with s1 s2 len dist new twice show ?thesis by blast
qed

theorem reupload_duplicates_witness:
  "inj (uuid4 demo_env)
   \<and> ids_drawn_before demo_env demo_world
   \<and> pdf_loader demo_env [37, 80] = Inr [''ab'', ''c'']
   \<and> length (chunks demo_env [''ab'', ''c'']) = 2
   \<and> upload_handler demo_env [37, 80] \<lparr>vector_ready = Some False, chat_history = None\<rparr> demo_world =
       (Inr (), \<lparr>vector_ready = Some True, chat_history = None\<rparr>, demo_uploaded)
   \<and> fst (upload_handler demo_env [37, 80] \<lparr>vector_ready = Some True, chat_history = None\<rparr>
            demo_uploaded) = Inr ()
   \<and> pdf_store (snd (snd (upload_handler demo_env [37, 80]
          \<lparr>vector_ready = Some True, chat_history = None\<rparr> demo_uploaded))) =
       [(''u'', ''ab''), (''uu'', ''c''), (''uuu'', ''ab''), (''uuuu'', ''c'')]
   \<and> length (pdf_store (snd (snd (upload_handler demo_env [37, 80]
          \<lparr>vector_ready = Some True, chat_history = None\<rparr> demo_uploaded)))) =
       length (pdf_store demo_world) + 2 * 2"
proof -
  let ?u2 = "upload_handler demo_env [37, 80] \<lparr>vector_ready = Some True, chat_history = None\<rparr>
               demo_uploaded"
  have ld: "pdf_loader demo_env [37, 80] = Inr [''ab'', ''c'']" by (simp add: demo_env_simps)
  have M: "length (chunks demo_env [''ab'', ''c'']) = 2" by (simp add: chunks_def demo_env_simps)
  have ok: "fst ?u2 = Inr ()" by (simp add: demo_upload)
  then have second: "?u2 = (Inr (), fst (snd ?u2), snd (snd ?u2))"
    by (metis prod.collapse)
  note main = reupload_duplicates [OF demo_uuid4_inj demo_world_before demo_upload_first second ld M]
  from main have len: "length (pdf_store (snd (snd ?u2))) = length (pdf_store demo_world) + 2 * 2"
    by blast
  from main have "pdf_store (snd (snd ?u2)) =
      pdf_store demo_uploaded @
        zip (fresh_ids demo_env (uuids_drawn demo_world + 2) 2) (chunks demo_env [''ab'', ''c''])"
    by blast
  also have "\<dots> = [(''u'', ''ab''), (''uu'', ''c''), (''uuu'', ''ab''), (''uuuu'', ''c'')]"
    by (simp add: demo_uploaded_def demo_world_def fresh_ids_def chunks_def demo_env_simps
        upt_rec eval_nat_numeral)
  finally have store: "pdf_store (snd (snd ?u2)) =
      [(''u'', ''ab''), (''uu'', ''c''), (''uuu'', ''ab''), (''uuuu'', ''c'')]" .
  from demo_uuid4_inj demo_world_before ld M demo_upload_first ok store len
  show ?thesis by blast
qed

subsection \<open>What a run leaves alone\<close>

lemma init_flag_history: "chat_history (init_flag ss) = chat_history ss"
  by (simp add: init_flag_def)

lemma init_flag_enabled: "chat_enabled (init_flag ss) = chat_enabled ss"
  by (simp add: init_flag_def chat_enabled_def)

lemma upload_handler_session:
  assumes "upload_handler E data ss w = (r, ss', w')"
  shows "(\<forall>e. r = Inl e \<longrightarrow> ss' = ss) \<and> (r = Inr () \<longrightarrow> ss' = ss\<lparr>vector_ready := Some True\<rparr>)"
  by (cases rule: upload_handler_cases [of E data ss w]) (use assms in auto)

lemma upload_handler_returns:
  assumes "upload_handler E data ss w = (Inr u, ss', w')"
  shows "writable E ''temp.pdf'' \<and>
         embeddings_init E ''mistral-embed'' = None \<and> vector_store_init E ''pdf_store'' = None \<and>
         (\<exists>pages. pdf_loader E data = Inr pages \<and>
            store_fault E (docs_of E pages)
              (fresh_ids E (uuids_drawn w) (length (chunks E pages))) = None)"
  by (cases rule: upload_handler_cases [of E data ss w]) (use assms in auto)

lemma upload_handler_files:
  assumes "upload_handler E data ss w = (r, ss', w')"
  shows "(writable E ''temp.pdf'' \<longrightarrow> files w' = (files w)(''temp.pdf'' \<mapsto> data))
         \<and> (\<not> writable E ''temp.pdf'' \<longrightarrow> files w' = files w \<and> r = Inl PermissionError)"
  by (cases rule: upload_handler_cases [of E data ss w]) (use assms in auto)

lemma ask_handler_frame:
  assumes "ask_handler E q ss w = (r, ss', w')"
  shows "files w' = files w \<and> pdf_store w' = pdf_store w \<and> uuids_drawn w' = uuids_drawn w
         \<and> vector_ready ss' = vector_ready ss"
  by (cases rule: ask_handler_cases [of E q ss w]) (use assms in auto)

lemma ask_handler_history:
  assumes "ask_handler E q ss w = (r, ss', w')" and "chat_history ss = Some h"
  shows "(r = Inr () \<longrightarrow> (\<exists>ans. chat_history ss' = Some (h @ [(q, ans)])))
         \<and> (\<forall>e. r = Inl e \<longrightarrow> chat_history ss' = Some h)"
  by (cases rule: ask_handler_cases [of E q ss w]) (use assms in auto)

lemma chat_section_frame:
  assumes "chat_section E inp ss w = (r, ss', w')"
  shows "files w' = files w \<and> pdf_store w' = pdf_store w \<and> uuids_drawn w' = uuids_drawn w
         \<and> vector_ready ss' = vector_ready ss"
  using assms
proof (cases rule: chat_section_cases)
  case closed
  then show ?thesis by simp
next
  case idle
  then show ?thesis by simp
next
  case ask
  from ask_handler_frame [OF ask(4)] show ?thesis by (simp split: if_splits)
qed

lemma upload_section_history:
  assumes "upload_section E inp ss w = (r, ss', w')"
  shows "chat_history ss' = chat_history ss"
  using assms
proof (cases rule: upload_section_cases)
  case idle
  then show ?thesis by simp
next
  case (run data)
  from upload_handler_session [OF run(3)] show ?thesis by (cases r) auto
qed

lemma chat_section_history:
  assumes "chat_section E inp ss w = (r, ss', w')" and "chat_history ss = Some h"
  shows "\<exists>t. chat_history ss' = Some (h @ t)"
  using assms(1)
proof (cases rule: chat_section_cases)
  case closed
  with assms(2) show ?thesis by simp
next
  case idle
  with assms(2) show ?thesis by simp
next
  case ask
  with assms(2) have run: "ask_handler E (user_question inp) ss w = (r, ss', w')" by simp
  from ask_handler_history [OF run assms(2)] show ?thesis by (cases r) auto
qed

lemma run_script_history:
  assumes "run_script E inp ss w = (r, ss', w')" and "chat_history ss = Some h"
  shows "\<exists>t. chat_history ss' = Some (h @ t)"
  using assms(1)
proof (cases rule: run_script_cases)
  case (upload_failed e)
  from upload_section_history [OF upload_failed(2)] assms(2) show ?thesis
    by (simp add: init_flag_history)
next
  case (upload_done ss1 w1)
  from upload_section_history [OF upload_done(1)] assms(2)
  have "chat_history ss1 = Some h" by (simp add: init_flag_history)
  from chat_section_history [OF upload_done(2) this] show ?thesis .
qed

lemma process_history:
  "process E is ss w = (ss', w') \<Longrightarrow> chat_history ss = Some h \<Longrightarrow>
   \<exists>t. chat_history ss' = Some (h @ t)"
proof (induction "is" arbitrary: ss w h)
  case Nil
  then show ?case by simp
next
  case (Cons i "is")
  obtain r ss1 w1 where step: "run_script E i ss w = (r, ss1, w1)"
    by (cases "run_script E i ss w") auto
  with Cons.prems have rest: "process E is ss1 w1 = (ss', w')" by simp
  from run_script_history [OF step Cons.prems(2)]
  obtain t where t: "chat_history ss1 = Some (h @ t)" ..
  from Cons.IH [OF rest t] obtain u where "chat_history ss' = Some ((h @ t) @ u)" ..
  then have "chat_history ss' = Some (h @ (t @ u))" by simp
  then show ?case ..
qed

lemma conversational_rag_chain_store:
  assumes "conversational_rag_chain E m rt store q sid w = (r, store', w')"
    and "store sid = Some hs"
  shows "(\<exists>t. store' sid = Some (hs @ t)) \<and> (\<forall>k. k \<noteq> sid \<longrightarrow> store' k = store k)"
  using assms
  by (auto simp add: conversational_rag_chain_def get_session_history_def Let_def
      split: prod.splits sum.splits)

subsection \<open>The transcript and the session history only grow\<close>

text \<open>
  Claim C8. Over any sequence of interactions the transcript in the session state keeps
  every earlier turn, unchanged and in its place: the transcript before is a prefix of
  the transcript after. One question answered adds exactly its turn at the end, and one
  that ends in an exception leaves the transcript as it was. The same holds of the
  message history kept under a session identifier by the chain, and the histories of
  other identifiers are left as they were.
\<close>

theorem history_append_only:
  assumes "process E is ss w = (ss', w')" and "chat_history ss = Some h"
    and "ask_handler E q ss1 w1 = (r1, ss1', w1')" and "chat_history ss1 = Some h1"
    and "conversational_rag_chain E m rt store q0 sid w0 = (r0, store', w0')"
    and "store sid = Some hs"
  shows "(\<exists>h'. chat_history ss' = Some h' \<and> prefix h h')
         \<and> (r1 = Inr () \<longrightarrow> (\<exists>ans. chat_history ss1' = Some (h1 @ [(q, ans)])))
         \<and> (\<forall>e. r1 = Inl e \<longrightarrow> chat_history ss1' = Some h1)
         \<and> (\<exists>hs'. store' sid = Some hs' \<and> prefix hs hs')
         \<and> (\<forall>k. k \<noteq> sid \<longrightarrow> store' k = store k)"
proof -
  from process_history [OF assms(1,2)] have "\<exists>h'. chat_history ss' = Some h' \<and> prefix h h'"
    by (auto simp add: prefix_def)
  moreover from conversational_rag_chain_store [OF assms(5,6)]
  have "(\<exists>hs'. store' sid = Some hs' \<and> prefix hs hs') \<and> (\<forall>k. k \<noteq> sid \<longrightarrow> store' k = store k)"
    by (auto simp add: prefix_def)
  moreover note ask_handler_history [OF assms(3,4)]
  ultimately show ?thesis by blast
qed

theorem history_append_only_witness:
  "chat_history demo_one_turn = Some [(''q1'', ''re: q1'')]
   \<and> demo_store ''abc123'' = Some [HumanMessage ''q0'', AIMessage ''a0'']
   \<and> prefix [(''q1'', ''re: q1'')]
        (the (chat_history (fst (process demo_env [demo_second_question] demo_one_turn demo_uploaded))))
   \<and> chat_history (fst (process demo_env [demo_second_question] demo_one_turn demo_uploaded))
        = Some [(''q1'', ''re: q1''), (''q2'', ''re: q2'')]
   \<and> fst (ask_handler demo_env ''q2'' demo_one_turn demo_uploaded) = Inr ()
   \<and> prefix [HumanMessage ''q0'', AIMessage ''a0'']
        (the (fst (snd (conversational_rag_chain demo_env the_model the_retriever demo_store
                          ''q3'' ''abc123'' demo_uploaded)) ''abc123''))"
proof -
  let ?p = "process demo_env [demo_second_question] demo_one_turn demo_uploaded"
  let ?a = "ask_handler demo_env ''q2'' demo_one_turn demo_uploaded"
  let ?c = "conversational_rag_chain demo_env the_model the_retriever demo_store
              ''q3'' ''abc123'' demo_uploaded"
  have p: "?p = (fst ?p, snd ?p)" by simp
  have a: "?a = (fst ?a, fst (snd ?a), snd (snd ?a))" by simp
  have c: "?c = (fst ?c, fst (snd ?c), snd (snd ?c))" by simp
  have h: "chat_history demo_one_turn = Some [(''q1'', ''re: q1'')]"
    by (simp add: demo_one_turn_def)
  have hs: "demo_store ''abc123'' = Some [HumanMessage ''q0'', AIMessage ''a0'']"
    by (simp add: demo_store_def)
  have ok: "fst ?a = Inr ()" by (simp add: demo_ask [OF h])
  have v: "chat_history (fst ?p) = Some [(''q1'', ''re: q1''), (''q2'', ''re: q2'')]"
    by (simp add: demo_second_question_def run_script_def init_flag_def
        upload_section_def chat_section_def demo_one_turn_def demo_ask)
  from history_append_only [OF p h a h c hs]
  have "prefix [(''q1'', ''re: q1'')] (the (chat_history (fst ?p)))"
    and "prefix [HumanMessage ''q0'', AIMessage ''a0''] (the (fst (snd ?c) ''abc123''))"
    by auto
  with h hs v ok show ?thesis by simp
qed

subsection \<open>The flag of the session\<close>

lemma run_script_upload_failed:
  assumes run: "run_script E inp ss w = (r, ss', w')"
    and "upload_clicked inp" "pdf_file inp = Some data"
    and fails: "fst (upload_handler E data (init_flag ss) w) = Inl e"
  shows "r = Inl e \<and> ss' = init_flag ss \<and> w' = snd (snd (upload_handler E data (init_flag ss) w))"
proof -
  obtain s1 wm where h: "upload_handler E data (init_flag ss) w = (Inl e, s1, wm)"
    using fails by (cases "upload_handler E data (init_flag ss) w") auto
  from upload_handler_session [OF h] have "s1 = init_flag ss" by simp
  with h assms(2,3) run show ?thesis by (simp add: run_script_def upload_section_def)
qed

lemma run_script_flag:
  assumes "run_script E inp ss w = (r, ss', w')"
  shows "chat_enabled ss' = chat_enabled ss \<or>
         (chat_enabled ss' \<and> upload_clicked inp \<and>
          (\<exists>data ss1 w1. pdf_file inp = Some data \<and>
             upload_handler E data (init_flag ss) w = (Inr (), ss1, w1)))"
  using assms
proof (cases rule: run_script_cases)
  case (upload_failed e)
  from upload_failed(2) show ?thesis
  proof (cases rule: upload_section_cases)
    case idle
    then show ?thesis by simp
  next
    case (run data)
    from upload_handler_session [OF run(3)] show ?thesis
      by (simp add: init_flag_enabled)
  qed
next
  case (upload_done ss1 w1)
  from chat_section_frame [OF upload_done(2)]
  have same: "chat_enabled ss' = chat_enabled ss1" by (simp add: chat_enabled_def)
  from upload_done(1) show ?thesis
  proof (cases rule: upload_section_cases)
    case idle
    with same show ?thesis by (simp add: init_flag_enabled)
  next
    case (run data)
    from upload_handler_session [OF run(3)] have "chat_enabled ss1"
      by (simp add: chat_enabled_def)
    with same run show ?thesis by auto
  qed
qed

text \<open>
  Claim C10. The upload handler assigns \<open>vector_ready\<close> only after \<open>add_documents\<close> has
  returned: a handler that ends in an exception, at whichever step, leaves the session
  state as it found it; a handler that returns has written the file, loaded it,
  constructed the embedding client and the vector store, and stored the batch without a
  fault. For a whole run: when its upload handler ends in an exception the run ends in
  that exception with the flag as it was, and the chat section's being enabled changes
  only from disabled to enabled and only when the run's upload handler has returned.
\<close>

theorem vector_ready_only_after_store:
  assumes "upload_handler E data ss0 w0 = (r0, ss0', w0')"
    and "run_script E inp ss w = (r, ss', w')"
  shows "(\<forall>e. r0 = Inl e \<longrightarrow> ss0' = ss0)
         \<and> (r0 = Inr () \<longrightarrow> ss0' = ss0\<lparr>vector_ready := Some True\<rparr> \<and> writable E ''temp.pdf'' \<and>
               embeddings_init E ''mistral-embed'' = None \<and>
               vector_store_init E ''pdf_store'' = None \<and>
               (\<exists>pages. pdf_loader E data = Inr pages \<and>
                  store_fault E (docs_of E pages)
                    (fresh_ids E (uuids_drawn w0) (length (chunks E pages))) = None))
         \<and> (\<forall>e data'. upload_clicked inp \<and> pdf_file inp = Some data' \<and>
                fst (upload_handler E data' (init_flag ss) w) = Inl e \<longrightarrow>
                r = Inl e \<and> ss' = init_flag ss \<and> chat_enabled ss' = chat_enabled ss)
         \<and> (chat_enabled ss' = chat_enabled ss \<or>
               (chat_enabled ss' \<and> upload_clicked inp \<and>
                (\<exists>data' ss1 w1. pdf_file inp = Some data' \<and>
                   upload_handler E data' (init_flag ss) w = (Inr (), ss1, w1))))"
proof (intro conjI allI impI)
  fix e assume "r0 = Inl e"
  with upload_handler_session [OF assms(1)] show "ss0' = ss0" by simp
next
  assume ok: "r0 = Inr ()"
  with upload_handler_session [OF assms(1)] show "ss0' = ss0\<lparr>vector_ready := Some True\<rparr>" by simp
  from ok assms(1) have "upload_handler E data ss0 w0 = (Inr (), ss0', w0')" by simp
  from upload_handler_returns [OF this]
  show "writable E ''temp.pdf''" "embeddings_init E ''mistral-embed'' = None"
    "vector_store_init E ''pdf_store'' = None"
    "\<exists>pages. pdf_loader E data = Inr pages \<and>
       store_fault E (docs_of E pages)
         (fresh_ids E (uuids_drawn w0) (length (chunks E pages))) = None"
    by blast+
next
  fix e data'
  assume a: "upload_clicked inp \<and> pdf_file inp = Some data' \<and>
             fst (upload_handler E data' (init_flag ss) w) = Inl e"
  then have "r = Inl e \<and> ss' = init_flag ss"
    using run_script_upload_failed [OF assms(2), of data' e] by blast
  then show "r = Inl e" "ss' = init_flag ss" "chat_enabled ss' = chat_enabled ss"
    by (simp_all add: init_flag_enabled)
next
  from run_script_flag [OF assms(2)]
  show "chat_enabled ss' = chat_enabled ss \<or>
        (chat_enabled ss' \<and> upload_clicked inp \<and>
         (\<exists>data' ss1 w1. pdf_file inp = Some data' \<and>
            upload_handler E data' (init_flag ss) w = (Inr (), ss1, w1)))" .
qed

lemma demo_bad_upload_handler:
  "upload_handler demo_env [] ss w =
     (Inl (ServiceError ''empty file''), ss,
      w\<lparr>files := (files w)(''temp.pdf'' \<mapsto> []),
        trace := trace w @ take 2 (upload_calls [])\<rparr>)"
  by (cases rule: upload_handler_cases [of demo_env "[]" ss w])
     (simp_all add: demo_env_simps)

theorem vector_ready_only_after_store_witness:
  "fst (upload_handler demo_env [] demo_session demo_world) = Inl (ServiceError ''empty file'')
   \<and> fst (snd (upload_handler demo_env [] demo_session demo_world)) = demo_session
   \<and> upload_clicked demo_bad_upload \<and> pdf_file demo_bad_upload = Some []
   \<and> fst (upload_handler demo_env [] (init_flag demo_one_turn) demo_uploaded)
       = Inl (ServiceError ''empty file'')
   \<and> fst (run_script demo_env demo_bad_upload demo_one_turn demo_uploaded)
       = Inl (ServiceError ''empty file'')
   \<and> chat_enabled (fst (snd (run_script demo_env demo_bad_upload demo_one_turn demo_uploaded)))
       = chat_enabled demo_one_turn
   \<and> chat_enabled demo_one_turn"
proof -
  let ?u = "upload_handler demo_env [] demo_session demo_world"
  let ?r = "run_script demo_env demo_bad_upload demo_one_turn demo_uploaded"
  have u: "?u = (fst ?u, fst (snd ?u), snd (snd ?u))" by simp
  have r: "?r = (fst ?r, fst (snd ?r), snd (snd ?r))" by simp
  have fu: "fst ?u = Inl (ServiceError ''empty file'')" by (simp add: demo_bad_upload_handler)
  have inp: "upload_clicked demo_bad_upload" "pdf_file demo_bad_upload = Some []"
    by (simp_all add: demo_bad_upload_def)
  have fh: "fst (upload_handler demo_env [] (init_flag demo_one_turn) demo_uploaded)
              = Inl (ServiceError ''empty file'')"
    by (simp add: demo_bad_upload_handler)
  have en: "chat_enabled demo_one_turn" by (simp add: chat_enabled_def demo_one_turn_def)
  note main = vector_ready_only_after_store [OF u r]
  from main fu have "fst (snd ?u) = demo_session" by blast
  moreover from main inp fh
  have "fst ?r = Inl (ServiceError ''empty file'')
        \<and> chat_enabled (fst (snd ?r)) = chat_enabled demo_one_turn" by blast
  ultimately show ?thesis using fu inp fh en by blast
qed

subsection \<open>The staged file\<close>

lemma upload_section_files:
  assumes "upload_section E inp ss w = (r, ss', w')"
  shows "(\<forall>p. p \<noteq> ''temp.pdf'' \<longrightarrow> files w' p = files w p)
         \<and> (files w ''temp.pdf'' \<noteq> None \<longrightarrow> files w' ''temp.pdf'' \<noteq> None)"
  using assms
proof (cases rule: upload_section_cases)
  case idle
  then show ?thesis by simp
next
  case (run data)
  from upload_handler_files [OF run(3)] show ?thesis
    by (cases "writable E ''temp.pdf''") auto
qed

lemma run_script_files:
  assumes "run_script E inp ss w = (r, ss', w')"
  shows "(\<forall>p. p \<noteq> ''temp.pdf'' \<longrightarrow> files w' p = files w p)
         \<and> (files w ''temp.pdf'' \<noteq> None \<longrightarrow> files w' ''temp.pdf'' \<noteq> None)"
  using assms
proof (cases rule: run_script_cases)
  case (upload_failed e)
  from upload_section_files [OF upload_failed(2)] show ?thesis .
next
  case (upload_done ss1 w1)
  from upload_section_files [OF upload_done(1)] chat_section_frame [OF upload_done(2)]
  show ?thesis by simp
qed

lemma process_files:
  "process E is ss w = (ss', w') \<Longrightarrow>
   (\<forall>p. p \<noteq> ''temp.pdf'' \<longrightarrow> files w' p = files w p)
   \<and> (files w ''temp.pdf'' \<noteq> None \<longrightarrow> files w' ''temp.pdf'' \<noteq> None)"
proof (induction "is" arbitrary: ss w)
  case Nil
  then show ?case by simp
next
  case (Cons i "is")
  obtain r ss1 w1 where step: "run_script E i ss w = (r, ss1, w1)"
    by (cases "run_script E i ss w") auto
  with Cons.prems have rest: "process E is ss1 w1 = (ss', w')" by simp
  from run_script_files [OF step] Cons.IH [OF rest] show ?case by simp
qed

lemma run_script_upload:
  assumes run: "run_script E inp ss w = (r, ss', w')"
    and "upload_clicked inp" "pdf_file inp = Some data"
  obtains r1 ss1 wm where "upload_handler E data (init_flag ss) w = (r1, ss1, wm)"
    "files w' = files wm" "trace wm = trace w @ new_events w wm"
    "new_events w w' = new_events w wm @ new_events wm w'"
    "\<forall>e. r1 = Inl e \<longrightarrow> r = Inl e"
  using run
proof (cases rule: run_script_cases)
  case (upload_failed e)
  from upload_failed(2) assms(2,3)
  have h: "upload_handler E data (init_flag ss) w = (Inl e, ss', w')"
    by (simp add: upload_section_def)
  from upload_handler_events [OF h] have "trace w' = trace w @ new_events w w'" ..
  moreover have "new_events w' w' = []" by (simp add: new_events_def)
  ultimately show ?thesis using that [OF h] upload_failed(1) by simp
next
  case (upload_done ss1 w1)
  from upload_done(1) assms(2,3)
  have h: "upload_handler E data (init_flag ss) w = (Inr (), ss1, w1)"
    by (simp add: upload_section_def)
  from upload_handler_events [OF h] have t1: "trace w1 = trace w @ new_events w w1" ..
  from chat_section_events [OF upload_done(2)] have t2: "trace w' = trace w1 @ new_events w1 w'" ..
  from chat_section_frame [OF upload_done(2)] have "files w' = files w1" by simp
  then show ?thesis using that [OF h] new_events_trans(1) [OF t1 t2] t1 by simp
qed

lemma upload_handler_first_calls:
  assumes "upload_handler E data ss w = (r, ss', w')" and "writable E ''temp.pdf''"
  shows "take 2 (new_events w w') = [FileWrite ''temp.pdf'' data, PdfLoad ''temp.pdf'']
         \<and> (\<forall>e. pdf_loader E data = Inl e \<longrightarrow> r = Inl e)"
  by (cases rule: upload_handler_cases [of E data ss w])
     (use assms in \<open>auto simp add: new_events_def upload_calls_def\<close>)

text \<open>
  Claim C9. Over any sequence of interactions no file other than \<open>temp.pdf\<close> is
  changed, \<open>temp.pdf\<close> once present stays present, and every write the script makes
  goes to \<open>temp.pdf\<close>. In one run with an upload, when the path can be written, the
  uploaded bytes are what \<open>temp.pdf\<close> holds afterwards, replacing what it held; the
  write is the run's first call and the load of \<open>temp.pdf\<close> its second, and a failure
  of the load on these bytes is the run's exception. When the path cannot be written,
  or nothing is uploaded, the files are as they were.
\<close>

theorem upload_stages_temp_file:
  assumes sess: "process E is ss0 w0 = (ss0', w0')"
    and run: "run_script E inp ss w = (r, ss', w')"
  shows "(\<forall>p. p \<noteq> ''temp.pdf'' \<longrightarrow> files w0' p = files w0 p)
         \<and> (files w0 ''temp.pdf'' \<noteq> None \<longrightarrow> files w0' ''temp.pdf'' \<noteq> None)
         \<and> (\<forall>p d. FileWrite p d \<in> set (new_events w0 w0') \<longrightarrow> p = ''temp.pdf'')
         \<and> (\<forall>data. upload_clicked inp \<and> pdf_file inp = Some data \<and> writable E ''temp.pdf'' \<longrightarrow>
               files w' = (files w)(''temp.pdf'' \<mapsto> data)
               \<and> take 2 (new_events w w') = [FileWrite ''temp.pdf'' data, PdfLoad ''temp.pdf'']
               \<and> (\<forall>e. pdf_loader E data = Inl e \<longrightarrow> r = Inl e))
         \<and> (\<forall>data. upload_clicked inp \<and> pdf_file inp = Some data \<and> \<not> writable E ''temp.pdf'' \<longrightarrow>
               files w' = files w \<and> r = Inl PermissionError)
         \<and> (\<not> upload_clicked inp \<or> pdf_file inp = None \<longrightarrow> files w' = files w)"
proof (intro conjI allI impI)
  from process_files [OF sess]
  show "\<And>p. p \<noteq> ''temp.pdf'' \<Longrightarrow> files w0' p = files w0 p"
    and "files w0 ''temp.pdf'' \<noteq> None \<Longrightarrow> files w0' ''temp.pdf'' \<noteq> None"
    by blast+
next
  fix p d assume "FileWrite p d \<in> set (new_events w0 w0')"
  moreover from process_events [OF sess] have "list_all script_event (new_events w0 w0')" ..
  ultimately have "script_event (FileWrite p d)" by (auto simp add: list_all_iff)
  then show "p = ''temp.pdf''" by simp
next
  fix data
  assume a: "upload_clicked inp \<and> pdf_file inp = Some data \<and> writable E ''temp.pdf''"
  then have up: "upload_clicked inp" "pdf_file inp = Some data" and wr: "writable E ''temp.pdf''"
    by simp_all
  from run up obtain r1 ss1 wm where h: "upload_handler E data (init_flag ss) w = (r1, ss1, wm)"
    and f: "files w' = files wm"
    and ev: "new_events w w' = new_events w wm @ new_events wm w'"
    and pr: "\<forall>e. r1 = Inl e \<longrightarrow> r = Inl e"
    by (rule run_script_upload)
  from upload_handler_files [OF h] wr f
  show "files w' = (files w)(''temp.pdf'' \<mapsto> data)" by simp
  from upload_handler_first_calls [OF h wr]
  have first: "take 2 (new_events w wm) = [FileWrite ''temp.pdf'' data, PdfLoad ''temp.pdf'']"
    and ld: "\<forall>e. pdf_loader E data = Inl e \<longrightarrow> r1 = Inl e" by simp_all
  from first have "2 \<le> length (new_events w wm)"
    by (metis length_take min.cobounded1 length_Cons list.size(3) One_nat_def Suc_1)
  with first ev show "take 2 (new_events w w') = [FileWrite ''temp.pdf'' data, PdfLoad ''temp.pdf'']"
    by simp
  show "r = Inl e" if "pdf_loader E data = Inl e" for e
    using that ld pr by blast
next
  fix data
  assume a: "upload_clicked inp \<and> pdf_file inp = Some data \<and> \<not> writable E ''temp.pdf''"
  then have up: "upload_clicked inp" "pdf_file inp = Some data" and wr: "\<not> writable E ''temp.pdf''"
    by simp_all
  from run up obtain r1 ss1 wm where h: "upload_handler E data (init_flag ss) w = (r1, ss1, wm)"
    and f: "files w' = files wm"
    and pr: "\<forall>e. r1 = Inl e \<longrightarrow> r = Inl e"
    by (rule run_script_upload)
  from upload_handler_files [OF h] wr f pr
  show "files w' = files w" "r = Inl PermissionError" by simp_all
next
  assume idle: "\<not> upload_clicked inp \<or> pdf_file inp = None"
  from run show "files w' = files w"
  proof (cases rule: run_script_cases)
    case (upload_failed e)
    with idle show ?thesis by (auto simp add: upload_section_def split: if_splits)
  next
    case (upload_done ss1 w1)
    with idle have "w1 = w" by (auto simp add: upload_section_def split: if_splits)
    with chat_section_frame [OF upload_done(2)] show ?thesis by simp
  qed
qed

theorem upload_stages_temp_file_witness:
  "process demo_env demo_inputs demo_session demo_world = (demo_asked, demo_final)
   \<and> upload_clicked demo_reupload \<and> pdf_file demo_reupload = Some [49]
   \<and> writable demo_env ''temp.pdf''
   \<and> files demo_uploaded ''temp.pdf'' = Some [37, 80]
   \<and> files (snd (snd (run_script demo_env demo_reupload demo_one_turn demo_uploaded))) ''temp.pdf''
       = Some [49]
   \<and> files demo_final ''notes.txt'' = files demo_world ''notes.txt''
   \<and> FileWrite ''temp.pdf'' [37, 80] \<in> set (new_events demo_world demo_final)"
proof -
  let ?r = "run_script demo_env demo_reupload demo_one_turn demo_uploaded"
  have r: "?r = (fst ?r, fst (snd ?r), snd (snd ?r))" by simp
  have inp: "upload_clicked demo_reupload" "pdf_file demo_reupload = Some [49]"
    by (simp_all add: demo_reupload_def)
  have wr: "writable demo_env ''temp.pdf''" by (simp add: demo_env_simps)
  have old: "files demo_uploaded ''temp.pdf'' = Some [37, 80]" by (simp add: demo_uploaded_def)
  have ev: "FileWrite ''temp.pdf'' [37, 80] \<in> set (new_events demo_world demo_final)"
    unfolding demo_new_events by (simp add: demo_final_def upload_calls_def)
  note main = upload_stages_temp_file [OF demo_process r]
  note others = main [THEN conjunct1, rule_format]
  note written = main [THEN conjunct2, THEN conjunct2, THEN conjunct2, THEN conjunct1, rule_format]
  from written [of "[49]"] inp wr
  have "files (snd (snd ?r)) = (files demo_uploaded)(''temp.pdf'' \<mapsto> [49])" by simp
  then have new: "files (snd (snd ?r)) ''temp.pdf'' = Some [49]" by simp
  have "''notes.txt'' \<noteq> ''temp.pdf''" by simp
  from others [OF this] have other: "files demo_final ''notes.txt'' = files demo_world ''notes.txt''" .
  from demo_process inp wr old new other ev show ?thesis by simp
qed

subsection \<open>Retrieval\<close>

lemma run_script_question:
  assumes run: "run_script E inp ss w = (r, ss', w')"
    and idle: "\<not> upload_clicked inp \<or> pdf_file inp = None"
    and ready: "vector_ready ss = Some True"
    and asked: "ask_clicked inp" "user_question inp \<noteq> []"
  shows "ask_handler E (user_question inp)
           (if chat_history ss = None then ss\<lparr>chat_history := Some []\<rparr> else ss) w = (r, ss', w')"
proof -
  from ready have "init_flag ss = ss" by (simp add: init_flag_def)
  with idle have "upload_section E inp (init_flag ss) w = (Inr (), ss, w)"
    by (auto simp add: upload_section_def)
  with run have "chat_section E inp ss w = (r, ss', w')" by (simp add: run_script_def)
  with ready asked show ?thesis by (simp add: chat_section_def)
qed

lemma ask_handler_retrieval:
  assumes run: "ask_handler E q ss w = (r, ss', w')"
    and cm: "chat_model_init E the_model = None"
    and em: "embeddings_init E ''mistral-embed'' = None"
    and vi: "vector_store_init E ''pdf_store'' = None"
    and h: "chat_history ss = Some h"
  shows "(\<forall>e. mmr_search E the_retriever q (pdf_store w) = Inl e \<longrightarrow>
            r = Inl e \<and> chat_history ss' = Some h)
         \<and> (\<forall>docs ans. mmr_search E the_retriever q (pdf_store w) = Inr docs \<and>
              llm E the_model (QA docs) [] q = Inr ans \<longrightarrow>
              r = Inr () \<and> chat_history ss' = Some (h @ [(q, ans)]))
         \<and> (\<forall>docs e. mmr_search E the_retriever q (pdf_store w) = Inr docs \<and>
              llm E the_model (QA docs) [] q = Inl e \<longrightarrow> r = Inl e \<and> chat_history ss' = Some h)
         \<and> (\<forall>rt q'. Retrieve rt q' \<in> set (new_events w w') \<longrightarrow> rt = the_retriever \<and> q' = q)
         \<and> Retrieve the_retriever q \<in> set (new_events w w')"
  by (cases rule: ask_handler_cases [of E q ss w])
     (use assms in \<open>auto simp add: new_events_def ask_calls_def\<close>)

text \<open>
  Claim C5. For a run in which a question is asked (the chat section is open, the button
  pressed on a non-empty question, no upload in the same run) and the three clients are
  constructed: the run's outcome is that of one search of the whole collection, with
  search type \<open>mmr\<close> and the single keyword \<open>k = 4\<close>, so with no filter. When that
  search fails the run ends in its exception; when it returns documents they are the
  context of the one answering call, whose answer is the turn added to the transcript.
  The run makes exactly this search and no other.
\<close>

theorem retrieval_is_mmr_k4:
  assumes run: "run_script E inp ss w = (r, ss', w')"
    and idle: "\<not> upload_clicked inp \<or> pdf_file inp = None"
    and ready: "vector_ready ss = Some True"
    and asked: "ask_clicked inp" and q: "user_question inp = q" "q \<noteq> []"
    and cm: "chat_model_init E the_model = None"
    and em: "embeddings_init E ''mistral-embed'' = None"
    and vi: "vector_store_init E ''pdf_store'' = None"
    and h: "h = (case chat_history ss of None \<Rightarrow> [] | Some t \<Rightarrow> t)"
  shows "(\<forall>e. mmr_search E \<lparr>search_type = ''mmr'', search_kwargs = [(''k'', 4)]\<rparr> q (pdf_store w)
              = Inl e \<longrightarrow>
            r = Inl e \<and> chat_history ss' = Some h)
         \<and> (\<forall>docs ans.
              mmr_search E \<lparr>search_type = ''mmr'', search_kwargs = [(''k'', 4)]\<rparr> q (pdf_store w)
                = Inr docs \<and>
              llm E the_model (QA docs) [] q = Inr ans \<longrightarrow>
              r = Inr () \<and> chat_history ss' = Some (h @ [(q, ans)]))
         \<and> (\<forall>docs e.
              mmr_search E \<lparr>search_type = ''mmr'', search_kwargs = [(''k'', 4)]\<rparr> q (pdf_store w)
                = Inr docs \<and>
              llm E the_model (QA docs) [] q = Inl e \<longrightarrow> r = Inl e \<and> chat_history ss' = Some h)
         \<and> (\<forall>rt q'. Retrieve rt q' \<in> set (new_events w w') \<longrightarrow>
              rt = \<lparr>search_type = ''mmr'', search_kwargs = [(''k'', 4)]\<rparr> \<and> q' = q)
         \<and> Retrieve \<lparr>search_type = ''mmr'', search_kwargs = [(''k'', 4)]\<rparr> q
              \<in> set (new_events w w')"
proof -
  let ?ss2 = "if chat_history ss = None then ss\<lparr>chat_history := Some []\<rparr> else ss"
  from run_script_question [OF run idle ready asked] q
  have ask: "ask_handler E q ?ss2 w = (r, ss', w')" by simp
  from h have h2: "chat_history ?ss2 = Some h" by (cases "chat_history ss") simp_all
  show ?thesis
    using ask_handler_retrieval [OF ask cm em vi h2] unfolding the_retriever_def .
qed

theorem retrieval_is_mmr_k4_witness:
  "\<not> upload_clicked demo_second_question
   \<and> vector_ready demo_one_turn = Some True
   \<and> ask_clicked demo_second_question \<and> user_question demo_second_question = ''q2''
   \<and> chat_model_init demo_env the_model = None
   \<and> embeddings_init demo_env ''mistral-embed'' = None
   \<and> vector_store_init demo_env ''pdf_store'' = None
   \<and> mmr_search demo_env \<lparr>search_type = ''mmr'', search_kwargs = [(''k'', 4)]\<rparr> ''q2''
        (pdf_store demo_uploaded) = Inr demo_context
   \<and> llm demo_env the_model (QA demo_context) [] ''q2'' = Inr ''re: q2''
   \<and> fst (run_script demo_env demo_second_question demo_one_turn demo_uploaded) = Inr ()
   \<and> chat_history (fst (snd (run_script demo_env demo_second_question demo_one_turn demo_uploaded)))
       = Some ([(''q1'', ''re: q1'')] @ [(''q2'', ''re: q2'')])"
proof -
  let ?r = "run_script demo_env demo_second_question demo_one_turn demo_uploaded"
  have r: "?r = (fst ?r, fst (snd ?r), snd (snd ?r))" by simp
  have idle: "\<not> upload_clicked demo_second_question \<or> pdf_file demo_second_question = None"
    and nu: "\<not> upload_clicked demo_second_question"
    and asked: "ask_clicked demo_second_question"
    and q: "user_question demo_second_question = ''q2''"
    by (simp_all add: demo_second_question_def)
  have ne: "''q2'' \<noteq> []" by simp
  have ready: "vector_ready demo_one_turn = Some True" by (simp add: demo_one_turn_def)
  have cm: "chat_model_init demo_env the_model = None"
    and em: "embeddings_init demo_env ''mistral-embed'' = None"
    and vi: "vector_store_init demo_env ''pdf_store'' = None"
    by (simp_all add: demo_env_simps)
  have h: "[(''q1'', ''re: q1'')] = (case chat_history demo_one_turn of None \<Rightarrow> [] | Some t \<Rightarrow> t)"
    by (simp add: demo_one_turn_def)
  have sr: "mmr_search demo_env \<lparr>search_type = ''mmr'', search_kwargs = [(''k'', 4)]\<rparr> ''q2''
              (pdf_store demo_uploaded) = Inr demo_context"
    using demo_env_simps(10) [of "''q2''" "pdf_store demo_uploaded"]
    by (simp add: the_retriever_def demo_uploaded_def demo_context_def)
  have an: "llm demo_env the_model (QA demo_context) [] ''q2'' = Inr ''re: q2''"
    by (simp add: demo_env_simps)
  note main = retrieval_is_mmr_k4 [OF r idle ready asked q ne cm em vi h]
  note answered = main [THEN conjunct2, THEN conjunct1, rule_format]
  from answered [of demo_context "''re: q2''"] sr an
  have "fst ?r = Inr () \<and> chat_history (fst (snd ?r)) = Some ([(''q1'', ''re: q1'')] @ [(''q2'', ''re: q2'')])"
    by simp
  with nu ready asked q cm em vi sr an show ?thesis by simp
qed

subsection \<open>Failures\<close>

lemma upload_failures:
  assumes "upload_handler E data ss w = (r, ss', w')"
  shows "(\<not> writable E ''temp.pdf'' \<longrightarrow>
            r = Inl PermissionError \<and> new_events w w' = take 1 (upload_calls data))
         \<and> (\<forall>e. writable E ''temp.pdf'' \<and> pdf_loader E data = Inl e \<longrightarrow>
               r = Inl e \<and> new_events w w' = take 2 (upload_calls data))
         \<and> (\<forall>pages e. writable E ''temp.pdf'' \<and> pdf_loader E data = Inr pages \<and>
               embeddings_init E ''mistral-embed'' = Some e \<longrightarrow>
               r = Inl e \<and> new_events w w' = take 3 (upload_calls data))
         \<and> (\<forall>pages e. writable E ''temp.pdf'' \<and> pdf_loader E data = Inr pages \<and>
               embeddings_init E ''mistral-embed'' = None \<and>
               vector_store_init E ''pdf_store'' = Some e \<longrightarrow>
               r = Inl e \<and> new_events w w' = upload_calls data)
         \<and> (\<forall>pages e. writable E ''temp.pdf'' \<and> pdf_loader E data = Inr pages \<and>
               embeddings_init E ''mistral-embed'' = None \<and>
               vector_store_init E ''pdf_store'' = None \<and>
               store_fault E (docs_of E pages)
                 (fresh_ids E (uuids_drawn w) (length (chunks E pages))) = Some e \<longrightarrow>
               r = Inl e \<and>
               new_events w w' = upload_calls data @
                 [AddDocuments (docs_of E pages)
                    (fresh_ids E (uuids_drawn w) (length (chunks E pages)))])
         \<and> (\<forall>e. r = Inl e \<longrightarrow> ss' = ss)
         \<and> distinct (new_events w w')"
  by (cases rule: upload_handler_cases [of E data ss w])
     (use assms in \<open>auto simp add: new_events_def upload_calls_def\<close>)

lemma ask_failures:
  assumes "ask_handler E q ss w = (r, ss', w')"
  shows "(\<forall>e. chat_model_init E the_model = Some e \<longrightarrow>
            r = Inl e \<and> new_events w w' = take 1 (ask_calls q))
         \<and> (\<forall>e. chat_model_init E the_model = None \<and>
               embeddings_init E ''mistral-embed'' = Some e \<longrightarrow>
               r = Inl e \<and> new_events w w' = take 2 (ask_calls q))
         \<and> (\<forall>e. chat_model_init E the_model = None \<and>
               embeddings_init E ''mistral-embed'' = None \<and>
               vector_store_init E ''pdf_store'' = Some e \<longrightarrow>
               r = Inl e \<and> new_events w w' = take 3 (ask_calls q))
         \<and> (\<forall>e. chat_model_init E the_model = None \<and>
               embeddings_init E ''mistral-embed'' = None \<and>
               vector_store_init E ''pdf_store'' = None \<and>
               mmr_search E the_retriever q (pdf_store w) = Inl e \<longrightarrow>
               r = Inl e \<and> new_events w w' = ask_calls q)
         \<and> (\<forall>docs e. chat_model_init E the_model = None \<and>
               embeddings_init E ''mistral-embed'' = None \<and>
               vector_store_init E ''pdf_store'' = None \<and>
               mmr_search E the_retriever q (pdf_store w) = Inr docs \<and>
               llm E the_model (QA docs) [] q = Inl e \<longrightarrow>
               r = Inl e \<and> new_events w w' = ask_calls q @ [LlmCall the_model (QA docs) [] q])
         \<and> (\<forall>e. r = Inl e \<longrightarrow> ss' = ss)
         \<and> distinct (new_events w w')
         \<and> (\<forall>m p h i. LlmCall m p h i \<in> set (new_events w w') \<longrightarrow>
               m = \<lparr>model = ''mistral-large-latest'', temperature = 7 / 10, max_retries = 2\<rparr>)"
  by (cases rule: ask_handler_cases [of E q ss w])
     (use assms in \<open>auto simp add: new_events_def ask_calls_def the_model_def the_retriever_def\<close>)

lemma run_upload_propagates:
  assumes "run_script E inp ss w = (r, ss', w')"
    and "upload_clicked inp" "pdf_file inp = Some d"
    and "upload_handler E d (init_flag ss) w = (Inl e, sx, wx)"
  shows "r = Inl e \<and> ss' = sx \<and> w' = wx"
  using assms by (simp add: run_script_def upload_section_def)

lemma run_ask_propagates:
  assumes run: "run_script E inp ss w = (r, ss', w')"
    and idle: "\<not> upload_clicked inp \<or> pdf_file inp = None"
    and ready: "vector_ready ss = Some True" and hist: "chat_history ss \<noteq> None"
    and asked: "ask_clicked inp" "user_question inp \<noteq> []"
    and fails: "ask_handler E (user_question inp) ss w = (Inl e, sx, wx)"
  shows "r = Inl e \<and> ss' = sx \<and> w' = wx"
  using run_script_question [OF run idle ready asked] hist fails by simp

lemma run_propagates:
  assumes "run_script E inp ss w = (r, ss', w')"
  shows "(\<forall>d e sx wx. upload_clicked inp \<and> pdf_file inp = Some d \<and>
             upload_handler E d (init_flag ss) w = (Inl e, sx, wx) \<longrightarrow>
             r = Inl e \<and> ss' = sx \<and> w' = wx)
         \<and> (\<forall>e sx wx. (\<not> upload_clicked inp \<or> pdf_file inp = None) \<and>
               vector_ready ss = Some True \<and> chat_history ss \<noteq> None \<and>
               ask_clicked inp \<and> user_question inp \<noteq> [] \<and>
               ask_handler E (user_question inp) ss w = (Inl e, sx, wx) \<longrightarrow>
               r = Inl e \<and> ss' = sx \<and> w' = wx)"
proof (intro conjI allI impI)
  fix d e sx wx
  assume "upload_clicked inp \<and> pdf_file inp = Some d \<and>
          upload_handler E d (init_flag ss) w = (Inl e, sx, wx)"
  with run_upload_propagates [OF assms, of d e sx wx]
  show "r = Inl e" "ss' = sx" "w' = wx" by simp_all
next
  fix e sx wx
  assume "(\<not> upload_clicked inp \<or> pdf_file inp = None) \<and>
          vector_ready ss = Some True \<and> chat_history ss \<noteq> None \<and>
          ask_clicked inp \<and> user_question inp \<noteq> [] \<and>
          ask_handler E (user_question inp) ss w = (Inl e, sx, wx)"
  with run_ask_propagates [OF assms, of e sx wx]
  show "r = Inl e" "ss' = sx" "w' = wx" by simp_all
qed

text \<open>
  Claim C7. The script handles no failure and repeats no call. In the upload handler, a
  path that cannot be written, a load that fails, a constructor that raises, and a
  store that fails each end the handler in that exception, with the session state
  untouched and the failing call the last one made; in the question handler the same
  holds of the three constructors, the search, and the answering call. No call is made
  twice within a handler. A run of the script ends in the exception of its handler,
  with the state the handler left. Every call of the chat model is made with the model
  configured at \<open>max_retries = 2\<close>.
\<close>

theorem failures_propagate_unhandled:
  assumes up: "upload_handler E data ss w = (r, ss', w')"
    and ask: "ask_handler E q ss0 w0 = (r0, ss0', w0')"
    and run: "run_script E inp ss1 w1 = (r1, ss1', w1')"
  shows "((\<not> writable E ''temp.pdf'' \<longrightarrow>
            r = Inl PermissionError \<and> new_events w w' = take 1 (upload_calls data))
         \<and> (\<forall>e. writable E ''temp.pdf'' \<and> pdf_loader E data = Inl e \<longrightarrow>
               r = Inl e \<and> new_events w w' = take 2 (upload_calls data))
         \<and> (\<forall>pages e. writable E ''temp.pdf'' \<and> pdf_loader E data = Inr pages \<and>
               embeddings_init E ''mistral-embed'' = Some e \<longrightarrow>
               r = Inl e \<and> new_events w w' = take 3 (upload_calls data))
         \<and> (\<forall>pages e. writable E ''temp.pdf'' \<and> pdf_loader E data = Inr pages \<and>
               embeddings_init E ''mistral-embed'' = None \<and>
               vector_store_init E ''pdf_store'' = Some e \<longrightarrow>
               r = Inl e \<and> new_events w w' = upload_calls data)
         \<and> (\<forall>pages e. writable E ''temp.pdf'' \<and> pdf_loader E data = Inr pages \<and>
               embeddings_init E ''mistral-embed'' = None \<and>
               vector_store_init E ''pdf_store'' = None \<and>
               store_fault E (docs_of E pages)
                 (fresh_ids E (uuids_drawn w) (length (chunks E pages))) = Some e \<longrightarrow>
               r = Inl e \<and>
               new_events w w' = upload_calls data @
                 [AddDocuments (docs_of E pages)
                    (fresh_ids E (uuids_drawn w) (length (chunks E pages)))])
         \<and> (\<forall>e. r = Inl e \<longrightarrow> ss' = ss)
         \<and> distinct (new_events w w'))
       \<and> ((\<forall>e. chat_model_init E the_model = Some e \<longrightarrow>
            r0 = Inl e \<and> new_events w0 w0' = take 1 (ask_calls q))
         \<and> (\<forall>e. chat_model_init E the_model = None \<and>
               embeddings_init E ''mistral-embed'' = Some e \<longrightarrow>
               r0 = Inl e \<and> new_events w0 w0' = take 2 (ask_calls q))
         \<and> (\<forall>e. chat_model_init E the_model = None \<and>
               embeddings_init E ''mistral-embed'' = None \<and>
               vector_store_init E ''pdf_store'' = Some e \<longrightarrow>
               r0 = Inl e \<and> new_events w0 w0' = take 3 (ask_calls q))
         \<and> (\<forall>e. chat_model_init E the_model = None \<and>
               embeddings_init E ''mistral-embed'' = None \<and>
               vector_store_init E ''pdf_store'' = None \<and>
               mmr_search E the_retriever q (pdf_store w0) = Inl e \<longrightarrow>
               r0 = Inl e \<and> new_events w0 w0' = ask_calls q)
         \<and> (\<forall>docs e. chat_model_init E the_model = None \<and>
               embeddings_init E ''mistral-embed'' = None \<and>
               vector_store_init E ''pdf_store'' = None \<and>
               mmr_search E the_retriever q (pdf_store w0) = Inr docs \<and>
               llm E the_model (QA docs) [] q = Inl e \<longrightarrow>
               r0 = Inl e \<and> new_events w0 w0' = ask_calls q @ [LlmCall the_model (QA docs) [] q])
         \<and> (\<forall>e. r0 = Inl e \<longrightarrow> ss0' = ss0)
         \<and> distinct (new_events w0 w0')
         \<and> (\<forall>m p h i. LlmCall m p h i \<in> set (new_events w0 w0') \<longrightarrow>
               m = \<lparr>model = ''mistral-large-latest'', temperature = 7 / 10, max_retries = 2\<rparr>))
       \<and> ((\<forall>d e sx wx. upload_clicked inp \<and> pdf_file inp = Some d \<and>
             upload_handler E d (init_flag ss1) w1 = (Inl e, sx, wx) \<longrightarrow>
             r1 = Inl e \<and> ss1' = sx \<and> w1' = wx)
         \<and> (\<forall>e sx wx. (\<not> upload_clicked inp \<or> pdf_file inp = None) \<and>
               vector_ready ss1 = Some True \<and> chat_history ss1 \<noteq> None \<and>
               ask_clicked inp \<and> user_question inp \<noteq> [] \<and>
               ask_handler E (user_question inp) ss1 w1 = (Inl e, sx, wx) \<longrightarrow>
               r1 = Inl e \<and> ss1' = sx \<and> w1' = wx))"
  by (rule conjI [OF upload_failures [OF up] conjI [OF ask_failures [OF ask] run_propagates [OF run]]])

lemma demo_env_no_store_more:
  "chat_model_init demo_env_no_store cm = None"
  "pdf_loader demo_env_no_store [] = Inl (ServiceError ''empty file'')"
  by (simp_all add: demo_env_no_store_def demo_env_def)

lemma demo_no_store_bad_upload:
  "upload_handler demo_env_no_store [] ss w =
     (Inl (ServiceError ''empty file''), ss,
      w\<lparr>files := (files w)(''temp.pdf'' \<mapsto> []), trace := trace w @ take 2 (upload_calls [])\<rparr>)"
  by (cases rule: upload_handler_cases [of demo_env_no_store "[]" ss w])
     (simp_all add: demo_env_no_store_simps demo_env_no_store_more)

theorem failures_propagate_unhandled_witness:
  "writable demo_env_no_store ''temp.pdf''
   \<and> pdf_loader demo_env_no_store [37, 80] = Inr [''ab'', ''c'']
   \<and> embeddings_init demo_env_no_store ''mistral-embed'' = None
   \<and> vector_store_init demo_env_no_store ''pdf_store'' = Some (ServiceError ''no token'')
   \<and> chat_model_init demo_env_no_store the_model = None
   \<and> fst (upload_handler demo_env_no_store [37, 80] demo_session demo_world)
       = Inl (ServiceError ''no token'')
   \<and> new_events demo_world (snd (snd (upload_handler demo_env_no_store [37, 80] demo_session demo_world)))
       = upload_calls [37, 80]
   \<and> fst (ask_handler demo_env_no_store ''q1'' demo_one_turn demo_uploaded)
       = Inl (ServiceError ''no token'')
   \<and> new_events demo_uploaded (snd (snd (ask_handler demo_env_no_store ''q1'' demo_one_turn demo_uploaded)))
       = take 3 (ask_calls ''q1'')
   \<and> upload_clicked demo_bad_upload \<and> pdf_file demo_bad_upload = Some []
   \<and> fst (run_script demo_env_no_store demo_bad_upload demo_one_turn demo_uploaded)
       = Inl (ServiceError ''empty file'')
   \<and> fst (snd (run_script demo_env_no_store demo_bad_upload demo_one_turn demo_uploaded))
       = init_flag demo_one_turn"
proof -
  let ?u = "upload_handler demo_env_no_store [37, 80] demo_session demo_world"
  let ?a = "ask_handler demo_env_no_store ''q1'' demo_one_turn demo_uploaded"
  let ?r = "run_script demo_env_no_store demo_bad_upload demo_one_turn demo_uploaded"
  have u: "?u = (fst ?u, fst (snd ?u), snd (snd ?u))" by simp
  have a: "?a = (fst ?a, fst (snd ?a), snd (snd ?a))" by simp
  have r: "?r = (fst ?r, fst (snd ?r), snd (snd ?r))" by simp
  have wr: "writable demo_env_no_store ''temp.pdf''"
    and ld: "pdf_loader demo_env_no_store [37, 80] = Inr [''ab'', ''c'']"
    and em: "embeddings_init demo_env_no_store ''mistral-embed'' = None"
    and vi: "vector_store_init demo_env_no_store ''pdf_store'' = Some (ServiceError ''no token'')"
    and cm: "chat_model_init demo_env_no_store the_model = None"
    by (simp_all add: demo_env_no_store_simps demo_env_no_store_more)
  have inp: "upload_clicked demo_bad_upload" "pdf_file demo_bad_upload = Some []"
    by (simp_all add: demo_bad_upload_def)
  note main = failures_propagate_unhandled [OF u a r]
  note up_part = main [THEN conjunct1]
  note ask_part = main [THEN conjunct2, THEN conjunct1]
  note run_part = main [THEN conjunct2, THEN conjunct2]
  note store_init =
    up_part [THEN conjunct2, THEN conjunct2, THEN conjunct2, THEN conjunct1, rule_format]
  note ask_store_init = ask_part [THEN conjunct2, THEN conjunct2, THEN conjunct1, rule_format]
  note run_upload = run_part [THEN conjunct1, rule_format]
  from store_init [of "[''ab'', ''c'']" "ServiceError ''no token''"] wr ld em vi
  have c1: "fst ?u = Inl (ServiceError ''no token'')
            \<and> new_events demo_world (snd (snd ?u)) = upload_calls [37, 80]" by simp
  from ask_store_init [of "ServiceError ''no token''"] cm em vi
  have c2: "fst ?a = Inl (ServiceError ''no token'')
            \<and> new_events demo_uploaded (snd (snd ?a)) = take 3 (ask_calls ''q1'')" by simp
  from run_upload [OF conjI [OF inp(1) conjI [OF inp(2) demo_no_store_bad_upload]]]
  have c3: "fst ?r = Inl (ServiceError ''empty file'') \<and> fst (snd ?r) = init_flag demo_one_turn"
    by simp
  from wr ld em vi cm inp c1 c2 c3 show ?thesis by simp
qed

end
